theory Spec2Isabelle
  imports Complex_Main "HOL-Library.Sublist" "HOL-Library.Multiset"
begin

section \<open>Data model (src/types/actors.ts)\<close>

text \<open>
  JavaScript numbers are modelled as mathematical reals, with one exception: the
  great-circle distance is computed in a floating-point arithmetic that is a parameter
  of the model, and it can be NaN, since the outcome of the distance test depends on it.
  Elsewhere the development covers the arithmetic and order of the program, not IEEE
  rounding or infinities.
  Strings are byte strings; the actor type, a string enum in the source, is a datatype.
\<close>

datatype ActorType =
  Car | Truck | Suv | Van | Bus | Motorcycle | Bicycle | Pedestrian | Animal | Scooter
  | OtherVehicle | Other

datatype Confidence = High | Medium | Low

record LatLon =
  lat :: real
  lon :: real

record BBox =
  x_min :: real
  y_min :: real
  x_max :: real
  y_max :: real

record DetectedActor =
  a_type :: ActorType
  a_label :: string
  a_confidence :: Confidence
  a_bbox :: BBox
  a_estimatedDistanceMeters :: real
  a_moving :: "bool option"
  a_description :: string
  a_worldPosition :: LatLon
  a_bearingFromCamera :: real

record ActorDetectionResult =
  fr_actors :: "DetectedActor list"
  fr_timestamp :: real
  fr_cameraPosition :: LatLon
  fr_cameraBearing :: real
  fr_fovDegrees :: real
  fr_detectedAt :: string

record ActorObservation =
  o_timestamp :: real
  o_worldPosition :: LatLon
  o_bbox :: BBox
  o_confidence :: Confidence
  o_description :: string

record ActorTrack =
  t_trackId :: string
  t_type :: ActorType
  t_label :: string
  t_color :: string
  t_observations :: "ActorObservation list"
  t_firstSeen :: real
  t_lastSeen :: real

record ActorTrackingResult =
  tracks :: "ActorTrack list"
  keyframeTimestamps :: "real list"
  frameResults :: "ActorDetectionResult list"
  eventId :: string

datatype Status = Detecting | Matching | Done | Error

record TrackingProgress =
  currentFrame :: nat
  totalFrames :: nat
  status :: Status
  message :: string

section \<open>Geometry utilities (geo-utils: haversineDistance)\<close>

definition EARTH_RADIUS :: real where
  "EARTH_RADIUS = 6371000"

text \<open>\<open>Math.atan2(y, x)\<close> on finite arguments.\<close>

definition atan2 :: "real \<Rightarrow> real \<Rightarrow> real" where
  "atan2 y x =
     (if 0 < x then arctan (y / x)
      else if x < 0 then (if 0 \<le> y then arctan (y / x) + pi else arctan (y / x) - pi)
      else if 0 < y then pi / 2
      else if y < 0 then - (pi / 2)
      else 0)"

text \<open>
  A number that an expression of the program evaluates to: NaN or a finite value.
\<close>

datatype JsNumber = NaN | Num real

text \<open>
  The floating-point arithmetic of the JavaScript engine on finite numbers: the four
  rounded operations, \<open>x ** 2\<close>, \<open>Math.sin\<close>, \<open>Math.cos\<close>, \<open>Math.sqrt\<close> on a
  non-negative argument, \<open>Math.atan2\<close> and the constant \<open>Math.PI\<close>. IEEE double
  arithmetic is one such arithmetic; \<open>exactArith\<close> is the arithmetic of the reals.
\<close>

record Arith =
  fl_add :: "real \<Rightarrow> real \<Rightarrow> real"
  fl_sub :: "real \<Rightarrow> real \<Rightarrow> real"
  fl_mul :: "real \<Rightarrow> real \<Rightarrow> real"
  fl_div :: "real \<Rightarrow> real \<Rightarrow> real"
  fl_pow2 :: "real \<Rightarrow> real"
  fl_sin :: "real \<Rightarrow> real"
  fl_cos :: "real \<Rightarrow> real"
  fl_sqrt :: "real \<Rightarrow> real"
  fl_atan2 :: "real \<Rightarrow> real \<Rightarrow> real"
  fl_pi :: real

definition exactArith :: Arith where
  "exactArith =
     \<lparr> fl_add = (\<lambda>x y. x + y), fl_sub = (\<lambda>x y. x - y), fl_mul = (\<lambda>x y. x * y),
       fl_div = (\<lambda>x y. x / y), fl_pow2 = (\<lambda>x. x\<^sup>2), fl_sin = sin, fl_cos = cos,
       fl_sqrt = sqrt, fl_atan2 = atan2, fl_pi = pi \<rparr>"

text \<open>\<open>Math.sqrt\<close>: NaN on a negative argument.\<close>

definition jsSqrt :: "Arith \<Rightarrow> real \<Rightarrow> JsNumber" where
  "jsSqrt ar x = (if x < 0 then NaN else Num (fl_sqrt ar x))"

text \<open>The value of the constant \<open>a\<close> of \<open>haversineDistance\<close> (lines 12-18).\<close>

definition haversineA :: "Arith \<Rightarrow> real \<Rightarrow> real \<Rightarrow> real \<Rightarrow> real \<Rightarrow> real" where
  "haversineA ar lat1 lon1 lat2 lon2 =
     (let dLat = fl_div ar (fl_mul ar (fl_sub ar lat2 lat1) (fl_pi ar)) 180;
          dLon = fl_div ar (fl_mul ar (fl_sub ar lon2 lon1) (fl_pi ar)) 180
      in fl_add ar
           (fl_pow2 ar (fl_sin ar (fl_div ar dLat 2)))
           (fl_mul ar
              (fl_mul ar
                 (fl_cos ar (fl_div ar (fl_mul ar lat1 (fl_pi ar)) 180))
                 (fl_cos ar (fl_div ar (fl_mul ar lat2 (fl_pi ar)) 180)))
              (fl_pow2 ar (fl_sin ar (fl_div ar dLon 2)))))"

text \<open>
  The returned value (line 19): NaN as soon as one of the two square roots is NaN,
  that is when the computed \<open>a\<close> is negative or exceeds 1.
\<close>

definition haversineDistance :: "Arith \<Rightarrow> real \<Rightarrow> real \<Rightarrow> real \<Rightarrow> real \<Rightarrow> JsNumber" where
  "haversineDistance ar lat1 lon1 lat2 lon2 =
     (let a = haversineA ar lat1 lon1 lat2 lon2 in
      case jsSqrt ar a of
        NaN \<Rightarrow> NaN
      | Num y \<Rightarrow>
          (case jsSqrt ar (fl_sub ar 1 a) of
             NaN \<Rightarrow> NaN
           | Num x \<Rightarrow> Num (fl_mul ar (fl_mul ar EARTH_RADIUS 2) (fl_atan2 ar y x))))"

text \<open>The comparison \<open>x > y\<close> and the difference \<open>x - y\<close> of a number that may be NaN.\<close>

definition jsGreater :: "JsNumber \<Rightarrow> real \<Rightarrow> bool" where
  "jsGreater x y = (case x of NaN \<Rightarrow> False | Num v \<Rightarrow> v > y)"

definition jsMinus :: "JsNumber \<Rightarrow> real \<Rightarrow> JsNumber" where
  "jsMinus x y = (case x of NaN \<Rightarrow> NaN | Num v \<Rightarrow> Num (v - y))"

section \<open>Label similarity (actor-matching.ts)\<close>

definition TRACK_COLORS :: "string list" where
  "TRACK_COLORS =
     [''#3b82f6'', ''#ef4444'', ''#10b981'', ''#f59e0b'', ''#8b5cf6'',
      ''#ec4899'', ''#06b6d4'', ''#f97316'', ''#14b8a6'', ''#6366f1'']"

definition MAX_MATCH_DISTANCE_M :: real where
  "MAX_MATCH_DISTANCE_M = 30"

definition LABEL_SIMILARITY_WEIGHT :: real where
  "LABEL_SIMILARITY_WEIGHT = 3 / 10"

text \<open>\<open>toLowerCase\<close> on the ASCII letters.\<close>

definition toLowerChar :: "char \<Rightarrow> char" where
  "toLowerChar c =
     (let n = (of_char c :: nat) in if 65 \<le> n \<and> n \<le> 90 then char_of (n + 32) else c)"

definition toLowerCase :: "string \<Rightarrow> string" where
  "toLowerCase s = map toLowerChar s"

text \<open>The ASCII members of the regular expression class \<open>\s\<close>.\<close>

definition isSpace :: "char \<Rightarrow> bool" where
  "isSpace c = ((of_char c :: nat) \<in> {9, 10, 11, 12, 13, 32})"

text \<open>
  \<open>s.split(/\s+/)\<close>: the pieces between maximal runs of white space. A leading or a
  trailing run yields an empty first or last piece, and the empty string yields the one
  piece \<open>''''\<close>. The flag says that the previous character was white space; \<open>cur\<close> is
  the piece being read.
\<close>

fun splitWsFrom :: "bool \<Rightarrow> string \<Rightarrow> string \<Rightarrow> string list" where
  "splitWsFrom inWs cur [] = [cur]"
| "splitWsFrom inWs cur (c # cs) =
     (if isSpace c then
        (if inWs then splitWsFrom True cur cs else cur # splitWsFrom True [] cs)
      else splitWsFrom False (cur @ [c]) cs)"

definition splitWs :: "string \<Rightarrow> string list" where
  "splitWs s = splitWsFrom False [] s"

text \<open>
  A JavaScript \<open>Set\<close> of words is a duplicate-free list; only its size and membership
  are used.
\<close>

definition labelSimilarity :: "string \<Rightarrow> string \<Rightarrow> real" where
  "labelSimilarity a b =
     (let wordsA = remdups (splitWs (toLowerCase a));
          wordsB = remdups (splitWs (toLowerCase b))
      in if length wordsA = 0 \<and> length wordsB = 0 then 1
         else
           (let overlap = length (filter (\<lambda>w. w \<in> set wordsB) wordsA);
                union = length (remdups (wordsA @ wordsB))
            in if union = 0 then 0 else real overlap / real union))"

section \<open>Track builder (actor-matching.ts: buildTracks)\<close>

record OpenTrack =
  ot_trackId :: string
  ot_type :: ActorType
  ot_label :: string
  ot_lastObservation :: ActorObservation
  ot_observations :: "ActorObservation list"

text \<open>Decimal rendering of the counter in the template literal \<open>track-${nextId++}\<close>.\<close>

definition digitChar :: "nat \<Rightarrow> char" where
  "digitChar d = ''0123456789'' ! d"

fun showNat :: "nat \<Rightarrow> string" where
  "showNat n = (if n < 10 then [digitChar n] else showNat (n div 10) @ [digitChar (n mod 10)])"

declare showNat.simps [simp del]

text \<open>The observation built from one actor of a frame (lines 66-72).\<close>

definition observationOf :: "ActorDetectionResult \<Rightarrow> DetectedActor \<Rightarrow> ActorObservation" where
  "observationOf frame actor =
     \<lparr> o_timestamp = fr_timestamp frame,
       o_worldPosition = a_worldPosition actor,
       o_bbox = a_bbox actor,
       o_confidence = a_confidence actor,
       o_description = a_description actor \<rparr>"

definition frameObservations ::
    "ActorDetectionResult \<Rightarrow> (DetectedActor \<times> ActorObservation) list" where
  "frameObservations frame = map (\<lambda>actor. (actor, observationOf frame actor)) (fr_actors frame)"

text \<open>
  The body of the two nested candidate loops (lines 84-99) for one track and one
  observation: \<open>None\<close> is \<open>continue\<close>, \<open>Some cost\<close> is the pushed candidate's cost.
\<close>

definition candidateCost ::
    "Arith \<Rightarrow> OpenTrack \<Rightarrow> DetectedActor \<times> ActorObservation \<Rightarrow> JsNumber option" where
  "candidateCost ar track ao =
     (let actor = fst ao; obs = snd ao in
      if a_type actor \<noteq> ot_type track then None
      else
        (let dist = haversineDistance ar
                      (lat (o_worldPosition (ot_lastObservation track)))
                      (lon (o_worldPosition (ot_lastObservation track)))
                      (lat (o_worldPosition obs))
                      (lon (o_worldPosition obs))
         in if jsGreater dist MAX_MATCH_DISTANCE_M then None
            else
              (let sim = labelSimilarity (ot_label track) (a_label actor)
               in Some (jsMinus dist (sim * LABEL_SIMILARITY_WEIGHT * MAX_MATCH_DISTANCE_M)))))"

type_synonym Candidate = "nat \<times> nat \<times> JsNumber"

definition candidatesOfTrack ::
    "Arith \<Rightarrow> OpenTrack list \<Rightarrow> (DetectedActor \<times> ActorObservation) list \<Rightarrow> nat \<Rightarrow>
     Candidate list" where
  "candidatesOfTrack ar openTracks observations ti =
     concat (map (\<lambda>oi. case candidateCost ar (openTracks ! ti) (observations ! oi) of
                          None \<Rightarrow> []
                        | Some cost \<Rightarrow> [(ti, oi, cost)])
                 [0..<length observations])"

definition buildCandidates ::
    "Arith \<Rightarrow> OpenTrack list \<Rightarrow> (DetectedActor \<times> ActorObservation) list \<Rightarrow> Candidate list" where
  "buildCandidates ar openTracks observations =
     concat (map (candidatesOfTrack ar openTracks observations) [0..<length openTracks])"

text \<open>
  \<open>candidates.sort((a, b) => a.cost - b.cost)\<close>. \<open>costAfter a b\<close> says that the
  comparison function returns a positive number, so that \<open>a\<close> goes after \<open>b\<close>; a NaN
  difference counts as zero. \<open>Array.prototype.sort\<close> is stable: candidates that do not
  compare positive keep their enumeration order. On costs that are all numbers this is
  the stable sort by ascending cost; with a NaN cost the comparison function is not
  consistent and the order an engine produces is its own, of which this is one.
\<close>

definition costAfter :: "Candidate \<Rightarrow> Candidate \<Rightarrow> bool" where
  "costAfter a b =
     (case snd (snd a) of
        NaN \<Rightarrow> False
      | Num x \<Rightarrow> (case snd (snd b) of NaN \<Rightarrow> False | Num y \<Rightarrow> x - y > 0))"

fun insertCandidate :: "Candidate \<Rightarrow> Candidate list \<Rightarrow> Candidate list" where
  "insertCandidate c [] = [c]"
| "insertCandidate c (d # ds) =
     (if costAfter c d then d # insertCandidate c ds else c # d # ds)"

definition sortCandidates :: "Candidate list \<Rightarrow> Candidate list" where
  "sortCandidates cs = foldr insertCandidate cs []"

text \<open>The push of an observation onto a track (lines 112-113).\<close>

definition appendObservation :: "OpenTrack \<Rightarrow> ActorObservation \<Rightarrow> OpenTrack" where
  "appendObservation track obs =
     track \<lparr> ot_observations := ot_observations track @ [obs], ot_lastObservation := obs \<rparr>"

text \<open>
  The greedy assignment loop (lines 105-114) over the sorted candidates; the state is
  the set \<open>matched\<close>, the set \<open>usedObs\<close> and the array of open tracks.
\<close>

fun greedyAssign ::
    "(DetectedActor \<times> ActorObservation) list \<Rightarrow> Candidate list \<Rightarrow>
     nat set \<times> nat set \<times> OpenTrack list \<Rightarrow> nat set \<times> nat set \<times> OpenTrack list" where
  "greedyAssign observations [] st = st"
| "greedyAssign observations ((trackIdx, obsIdx, cost) # cs) (matched, usedObs, openTracks) =
     (if trackIdx \<in> matched \<or> obsIdx \<in> usedObs
      then greedyAssign observations cs (matched, usedObs, openTracks)
      else greedyAssign observations cs
             (insert trackIdx matched, insert obsIdx usedObs,
              openTracks[trackIdx :=
                appendObservation (openTracks ! trackIdx) (snd (observations ! obsIdx))]))"

text \<open>
  Closing the unmatched tracks (lines 117-122): \<open>ti\<close> runs from the last index down to 0;
  the first argument is \<open>ti + 1\<close>. The result is the pair of the open and the closed tracks.
\<close>

fun closeUnmatched ::
    "nat \<Rightarrow> nat set \<Rightarrow> OpenTrack list \<Rightarrow> OpenTrack list \<Rightarrow> OpenTrack list \<times> OpenTrack list" where
  "closeUnmatched 0 matched openTracks closedTracks = (openTracks, closedTracks)"
| "closeUnmatched (Suc ti) matched openTracks closedTracks =
     (if ti \<notin> matched
      then closeUnmatched ti matched
             (take ti openTracks @ drop (Suc ti) openTracks) (closedTracks @ [openTracks ! ti])
      else closeUnmatched ti matched openTracks closedTracks)"

text \<open>
  Starting a track for each unmatched observation (lines 125-135), for the observation
  indices \<open>ois\<close> in ascending order; the state is the open tracks and \<open>nextId\<close>.
\<close>

definition newTrack :: "nat \<Rightarrow> DetectedActor \<times> ActorObservation \<Rightarrow> OpenTrack" where
  "newTrack nextId ao =
     \<lparr> ot_trackId = ''track-'' @ showNat nextId,
       ot_type = a_type (fst ao),
       ot_label = a_label (fst ao),
       ot_lastObservation = snd ao,
       ot_observations = [snd ao] \<rparr>"

fun startTracks ::
    "(DetectedActor \<times> ActorObservation) list \<Rightarrow> nat set \<Rightarrow> nat list \<Rightarrow>
     OpenTrack list \<times> nat \<Rightarrow> OpenTrack list \<times> nat" where
  "startTracks observations usedObs [] st = st"
| "startTracks observations usedObs (oi # ois) (openTracks, nextId) =
     (if oi \<in> usedObs then startTracks observations usedObs ois (openTracks, nextId)
      else startTracks observations usedObs ois
             (openTracks @ [newTrack nextId (observations ! oi)], Suc nextId))"

text \<open>The state of the loop over the frames: open tracks, closed tracks and \<open>nextId\<close>.\<close>

type_synonym LoopState = "OpenTrack list \<times> OpenTrack list \<times> nat"

definition processFrame :: "Arith \<Rightarrow> LoopState \<Rightarrow> ActorDetectionResult \<Rightarrow> LoopState" where
  "processFrame ar st frame =
     (case st of (openTracks, closedTracks, nextId) \<Rightarrow>
        (let observations = frameObservations frame;
             candidates = sortCandidates (buildCandidates ar openTracks observations)
         in case greedyAssign observations candidates ({}, {}, openTracks) of
              (matched, usedObs, openTracks1) \<Rightarrow>
                (case closeUnmatched (length openTracks1) matched openTracks1 closedTracks of
                   (openTracks2, closedTracks2) \<Rightarrow>
                     (case startTracks observations usedObs [0..<length observations]
                             (openTracks2, nextId) of
                        (openTracks3, nextId3) \<Rightarrow> (openTracks3, closedTracks2, nextId3)))))"

text \<open>\<open>[...frameResults].sort((a, b) => a.timestamp - b.timestamp)\<close>, a stable sort.\<close>

definition sortFrames :: "ActorDetectionResult list \<Rightarrow> ActorDetectionResult list" where
  "sortFrames frs = sort_key fr_timestamp frs"

definition trackLoop :: "Arith \<Rightarrow> ActorDetectionResult list \<Rightarrow> LoopState" where
  "trackLoop ar sortedFrames = foldl (processFrame ar) ([], [], 1) sortedFrames"

text \<open>
  All tracks in closing order, the remaining open ones last (line 139).
\<close>

definition allClosed :: "LoopState \<Rightarrow> OpenTrack list" where
  "allClosed st = (case st of (openTracks, closedTracks, nextId) \<Rightarrow> closedTracks @ openTracks)"

text \<open>
  The conversion to \<open>ActorTrack\<close> (lines 142-150). Reading \<open>t.observations[0].timestamp\<close>
  of a track without observations throws a TypeError: the result is \<open>None\<close> there.
\<close>

definition toActorTrack :: "nat \<Rightarrow> OpenTrack \<Rightarrow> ActorTrack option" where
  "toActorTrack i t =
     (case ot_observations t of
        [] \<Rightarrow> None
      | ob # obs \<Rightarrow>
          Some \<lparr> t_trackId = ot_trackId t,
                 t_type = ot_type t,
                 t_label = ot_label t,
                 t_color = TRACK_COLORS ! (i mod length TRACK_COLORS),
                 t_observations = ot_observations t,
                 t_firstSeen = o_timestamp ob,
                 t_lastSeen = o_timestamp (last (ob # obs)) \<rparr>)"

fun convertTracks :: "nat \<Rightarrow> OpenTrack list \<Rightarrow> ActorTrack list option" where
  "convertTracks i [] = Some []"
| "convertTracks i (t # ts) =
     (case toActorTrack i t of
        None \<Rightarrow> None
      | Some tr \<Rightarrow> (case convertTracks (Suc i) ts of None \<Rightarrow> None | Some trs \<Rightarrow> Some (tr # trs)))"

definition buildTracks ::
    "Arith \<Rightarrow> ActorDetectionResult list \<Rightarrow> string \<Rightarrow> ActorTrackingResult option" where
  "buildTracks ar frameResultsIn eventIdIn =
     (let sortedFrames = sortFrames frameResultsIn;
          closedTracks = allClosed (trackLoop ar sortedFrames)
      in case convertTracks 0 closedTracks of
           None \<Rightarrow> None
         | Some converted \<Rightarrow>
             Some \<lparr> tracks = sort_key t_firstSeen converted,
                    keyframeTimestamps = map fr_timestamp sortedFrames,
                    frameResults = sortedFrames,
                    eventId = eventIdIn \<rparr>)"

section \<open>Camera projection model (geo-projection.ts)\<close>

definition toRad :: "real \<Rightarrow> real" where
  "toRad deg = (deg * pi) / 180"

definition toDeg :: "real \<Rightarrow> real" where
  "toDeg rad = (rad * 180) / pi"

text \<open>The remainder operator \<open>%\<close> of JavaScript on finite numbers: the quotient is truncated.\<close>

definition jsRemainder :: "real \<Rightarrow> real \<Rightarrow> real" where
  "jsRemainder x y =
     x - y * of_int (if 0 \<le> x / y then \<lfloor>x / y\<rfloor> else \<lceil>x / y\<rceil>)"

record CameraIntrinsics =
  focal :: real
  k1 :: real
  k2 :: real

text \<open>The five iterations of \<open>undistortPoint\<close>; the state is \<open>(xu, yu)\<close>.\<close>

fun undistortIter :: "nat \<Rightarrow> real \<Rightarrow> real \<Rightarrow> real \<Rightarrow> real \<Rightarrow> real \<times> real \<Rightarrow> real \<times> real" where
  "undistortIter 0 xd yd c1 c2 (xu, yu) = (xu, yu)"
| "undistortIter (Suc n) xd yd c1 c2 (xu, yu) =
     (let r2 = xu * xu + yu * yu;
          r4 = r2 * r2;
          scale = 1 + c1 * r2 + c2 * r4
      in undistortIter n xd yd c1 c2 (xd / scale, yd / scale))"

definition undistortPoint :: "real \<Rightarrow> real \<Rightarrow> real \<Rightarrow> real \<Rightarrow> real \<times> real" where
  "undistortPoint xd yd c1 c2 = undistortIter 5 xd yd c1 c2 (xd, yd)"

definition pixelToBearingOffset ::
    "real \<Rightarrow> real \<Rightarrow> real \<Rightarrow> CameraIntrinsics option \<Rightarrow> real" where
  "pixelToBearingOffset pixelX imageWidth fovDegrees intrinsics =
     (let normalizedX = (pixelX / imageWidth) - 1 / 2 in
      case intrinsics of
        Some intr \<Rightarrow>
          (let undistorted = undistortPoint normalizedX 0 (k1 intr) (k2 intr)
           in toDeg (arctan (fst undistorted / focal intr)))
      | None \<Rightarrow>
          (let halfFovRad = toRad (fovDegrees / 2);
               focalFromFov = (1 / 2) / tan halfFovRad
           in toDeg (arctan (normalizedX / focalFromFov))))"

definition projectPoint :: "real \<Rightarrow> real \<Rightarrow> real \<Rightarrow> real \<Rightarrow> LatLon" where
  "projectPoint la lo bearingDeg distanceMeters =
     (let d = distanceMeters / EARTH_RADIUS;
          brng = toRad bearingDeg;
          lat1 = toRad la;
          lon1 = toRad lo;
          lat2 = arcsin (sin lat1 * cos d + cos lat1 * sin d * cos brng);
          lon2 = lon1 + atan2 (sin brng * sin d * cos lat1) (cos d - sin lat1 * sin lat2)
      in \<lparr> lat = toDeg lat2, lon = toDeg lon2 \<rparr>)"

record WorldProjection =
  wp_lat :: real
  wp_lon :: real
  wp_bearing :: real

definition projectActorToWorld ::
    "BBox \<Rightarrow> real \<Rightarrow> real \<Rightarrow> real \<Rightarrow> real \<Rightarrow> real \<Rightarrow> real \<Rightarrow> CameraIntrinsics option \<Rightarrow>
     WorldProjection" where
  "projectActorToWorld box distanceMeters cameraLat cameraLon cameraBearing imageWidth
       fovDegrees intrinsics =
     (let bboxCenterX = (x_min box + x_max box) / 2;
          bearingOffset = pixelToBearingOffset bboxCenterX imageWidth fovDegrees intrinsics;
          absoluteBearing = jsRemainder (cameraBearing + bearingOffset + 360) 360;
          pos = projectPoint cameraLat cameraLon absoluteBearing distanceMeters
      in \<lparr> wp_lat = lat pos, wp_lon = lon pos, wp_bearing = absoluteBearing \<rparr>)"

section \<open>Projection of the raw detections (api/detect-actors/route.ts, lines 235-260)\<close>

record RawActor =
  raw_type :: ActorType
  raw_label :: string
  raw_confidence :: Confidence
  raw_bbox :: BBox
  raw_estimatedDistanceMeters :: real
  raw_moving :: "bool option"
  raw_description :: string

text \<open>\<open>rawResult.frameWidth || 1280\<close>: a zero width is replaced.\<close>

definition imageWidthOf :: "real \<Rightarrow> real" where
  "imageWidthOf frameWidth = (if frameWidth = 0 then 1280 else frameWidth)"

text \<open>The function mapped over \<open>rawResult.actors\<close> (lines 241-260).\<close>

definition projectRawActor ::
    "real \<Rightarrow> real \<Rightarrow> real \<Rightarrow> real \<Rightarrow> real \<Rightarrow> CameraIntrinsics option \<Rightarrow> RawActor \<Rightarrow>
     DetectedActor" where
  "projectRawActor cameraLat cameraLon cameraBearing imageWidth fovDegrees intrinsics raw =
     (let clampedDistance = max 2 (min 200 (raw_estimatedDistanceMeters raw));
          projected = projectActorToWorld (raw_bbox raw) clampedDistance cameraLat cameraLon
                        cameraBearing imageWidth fovDegrees intrinsics
      in \<lparr> a_type = raw_type raw,
           a_label = raw_label raw,
           a_confidence = raw_confidence raw,
           a_bbox = raw_bbox raw,
           a_estimatedDistanceMeters = clampedDistance,
           a_moving = raw_moving raw,
           a_description = raw_description raw,
           a_worldPosition = \<lparr> lat = wp_lat projected, lon = wp_lon projected \<rparr>,
           a_bearingFromCamera = wp_bearing projected \<rparr>)"

definition projectRawActors ::
    "real \<Rightarrow> real \<Rightarrow> real \<Rightarrow> real \<Rightarrow> real \<Rightarrow> CameraIntrinsics option \<Rightarrow> RawActor list \<Rightarrow>
     DetectedActor list" where
  "projectRawActors cameraLat cameraLon cameraBearing frameWidth fovDegrees intrinsics rawActors =
     map (projectRawActor cameraLat cameraLon cameraBearing (imageWidthOf frameWidth)
            fovDegrees intrinsics) rawActors"

section \<open>Keyframe selection (use-actor-tracking: computeKeyframes)\<close>

definition KEYFRAME_INTERVAL :: real where
  "KEYFRAME_INTERVAL = 1"

definition KEYFRAME_START :: real where
  "KEYFRAME_START = 1 / 2"

text \<open>\<open>Math.round\<close>: the nearest integer, halves rounded up.\<close>

definition mathRound :: "real \<Rightarrow> real" where
  "mathRound x = of_int \<lfloor>x + 1 / 2\<rfloor>"

text \<open>
  The loop \<open>for (t = KEYFRAME_START; t < duration - 0.5; t += KEYFRAME_INTERVAL)\<close>,
  from the current \<open>t\<close> and the timestamps pushed so far.
\<close>

function keyframeLoop :: "real \<Rightarrow> real \<Rightarrow> real list \<Rightarrow> real list" where
  "keyframeLoop t duration timestamps =
     (if t < duration - 1 / 2
      then keyframeLoop (t + KEYFRAME_INTERVAL) duration (timestamps @ [mathRound (t * 10) / 10])
      else timestamps)"
  by pat_completeness auto
termination
  by (relation "measure (\<lambda>(t, duration, timestamps). nat \<lceil>duration - 1 / 2 - t\<rceil>)")
     (auto simp: KEYFRAME_INTERVAL_def, linarith)

declare keyframeLoop.simps [simp del]

definition computeKeyframes :: "real \<Rightarrow> real list" where
  "computeKeyframes duration =
     (let timestamps = keyframeLoop KEYFRAME_START duration [];
          endFrame = max (duration - 1) KEYFRAME_START
      in if length timestamps = 0 \<or> last timestamps < endFrame - 1
         then timestamps @ [mathRound (endFrame * 10) / 10]
         else timestamps)"

section \<open>Tracking session orchestrator (use-actor-tracking: track)\<close>

definition TRACKING_CACHE_PREFIX :: string where
  "TRACKING_CACHE_PREFIX = ''actor-tracking-''"

definition DETECTION_CACHE_PREFIX :: string where
  "DETECTION_CACHE_PREFIX = ''actor-detection-''"

record CameraState =
  cam_lat :: real
  cam_lon :: real
  cam_bearing :: real

record TrackParams =
  p_eventId :: string
  p_videoUrl :: string
  p_videoDuration :: real
  p_fovDegrees :: real
  p_cameraIntrinsics :: "CameraIntrinsics option"
  p_getCameraState :: "real \<Rightarrow> CameraState"

text \<open>The body of the POST request to \<open>/api/detect-actors\<close> (lines 128-138).\<close>

record DetectRequest =
  rq_eventId :: string
  rq_videoUrl :: string
  rq_timestamp :: real
  rq_cameraLat :: real
  rq_cameraLon :: real
  rq_cameraBearing :: real
  rq_fovDegrees :: real
  rq_cameraIntrinsics :: "CameraIntrinsics option"
  rq_anthropicApiKey :: "string option"

text \<open>
  A thrown value: an \<open>Error\<close> with its message, or anything else. The handler reads
  \<open>err instanceof Error ? err.message : "Tracking failed"\<close>.
\<close>

datatype Thrown = ErrorObject string | OtherValue

definition thrownMessage :: "Thrown \<Rightarrow> string" where
  "thrownMessage th = (case th of ErrorObject m \<Rightarrow> m | OtherValue \<Rightarrow> ''Tracking failed'')"

text \<open>The outcome of \<open>await response.json()\<close>.\<close>

datatype 'a JsonResult = JsonThrows Thrown | Json 'a

text \<open>
  The outcome of one \<open>fetch\<close>: it rejects (transport error); or it resolves with
  \<open>response.ok\<close> false, a status and a body whose \<open>error\<close> field is \<open>Some\<close> text when
  truthy; or it resolves with \<open>response.ok\<close> true and a body that is a frame result, or
  \<open>None\<close> when it is \<open>null\<close>.
\<close>

datatype FetchOutcome =
    FetchRejected Thrown
  | RespNotOk nat "string option JsonResult"
  | RespOk "ActorDetectionResult option JsonResult"

text \<open>
  The collaborators of the hook, as parameters: \<open>JSON.parse\<close> of a stored session
  (\<open>None\<close> when it throws or when reading \<open>keyframeTimestamps.length\<close> of the value throws)
  and of a stored frame (\<open>None\<close> when it throws or yields a falsy value),
  \<open>JSON.stringify\<close>, the detection endpoint at the i-th iteration, whether
  \<open>localStorage.setItem\<close> throws, the value of \<open>abortRef.current\<close> read by the i-th check
  (\<open>clear\<close> may set it while a request is awaited), the stored API key,
  the floating-point arithmetic of the engine, the message of a TypeError, and the
  renderings of a number by a template literal and by \<open>toFixed(1)\<close>.
\<close>

record Env =
  env_parseTracking :: "string \<Rightarrow> ActorTrackingResult option"
  env_parseFrame :: "string \<Rightarrow> ActorDetectionResult option"
  env_stringifyTracking :: "ActorTrackingResult \<Rightarrow> string"
  env_stringifyFrame :: "ActorDetectionResult option \<Rightarrow> string"
  env_fetchDetect :: "nat \<Rightarrow> DetectRequest \<Rightarrow> FetchOutcome"
  env_setItemThrows :: "string \<Rightarrow> string \<Rightarrow> bool"
  env_aborted :: "nat \<Rightarrow> bool"
  env_anthropicKey :: "string option"
  env_arith :: Arith
  env_typeErrorMessage :: string
  env_numberToString :: "real \<Rightarrow> string"
  env_toFixed1 :: "real \<Rightarrow> string"

text \<open>The React state of the hook, \<open>lastEventIdRef\<close> and the content of \<open>localStorage\<close>.\<close>

record HookState =
  hs_trackingResult :: "ActorTrackingResult option"
  hs_isTracking :: bool
  hs_progress :: "TrackingProgress option"
  hs_error :: "string option"
  hs_lastEventId :: "string option"
  hs_storage :: "string \<rightharpoonup> string"

text \<open>\<open>try { localStorage.setItem(key, value) } catch { }\<close>.\<close>

definition setItem :: "Env \<Rightarrow> string \<Rightarrow> string \<Rightarrow> HookState \<Rightarrow> HookState" where
  "setItem env key v s =
     (if env_setItemThrows env key v then s
      else s \<lparr> hs_storage := (hs_storage s)(key \<mapsto> v) \<rparr>)"

text \<open>
  The check of the session cache (lines 67-89). The flag says that the cached session
  was taken and \<open>track\<close> returns.
\<close>

definition checkTrackingCache ::
    "Env \<Rightarrow> string \<Rightarrow> real list \<Rightarrow> HookState \<Rightarrow> HookState \<times> bool" where
  "checkTrackingCache env eventIdIn keyframes s =
     (let trackingCacheKey = TRACKING_CACHE_PREFIX @ eventIdIn in
      case hs_storage s trackingCacheKey of
        None \<Rightarrow> (s, False)
      | Some stored \<Rightarrow>
          if stored = [] then (s, False)
          else
            (case env_parseTracking env stored of
               None \<Rightarrow> (s, False)
             | Some cached \<Rightarrow>
                 if length (keyframeTimestamps cached) = length keyframes
                 then
                   (s \<lparr> hs_trackingResult := Some cached,
                        hs_progress := Some
                          \<lparr> currentFrame = length (keyframeTimestamps cached),
                            totalFrames = length (keyframeTimestamps cached),
                            status = Done,
                            message = ''Loaded from cache'' \<rparr>,
                        hs_isTracking := False \<rparr>, True)
                 else
                   (s \<lparr> hs_storage := (hs_storage s)(trackingCacheKey := None) \<rparr>, False)))"

definition detectRequest :: "Env \<Rightarrow> TrackParams \<Rightarrow> real \<Rightarrow> DetectRequest" where
  "detectRequest env params t =
     (let camera = p_getCameraState params t in
      \<lparr> rq_eventId = p_eventId params,
        rq_videoUrl = p_videoUrl params,
        rq_timestamp = t,
        rq_cameraLat = cam_lat camera,
        rq_cameraLon = cam_lon camera,
        rq_cameraBearing = cam_bearing camera,
        rq_fovDegrees = p_fovDegrees params,
        rq_cameraIntrinsics = p_cameraIntrinsics params,
        rq_anthropicApiKey = env_anthropicKey env \<rparr>)"

text \<open>
  The detection request of one keyframe (lines 124-146): \<open>Inl\<close> is the thrown value,
  \<open>Inr\<close> the parsed body of a successful response.
\<close>

definition requestDetection ::
    "Env \<Rightarrow> TrackParams \<Rightarrow> nat \<Rightarrow> real \<Rightarrow> Thrown + ActorDetectionResult option" where
  "requestDetection env params i t =
     (case env_fetchDetect env i (detectRequest env params t) of
        FetchRejected th \<Rightarrow> Inl th
      | RespNotOk st body \<Rightarrow>
          (case body of
             JsonThrows th \<Rightarrow> Inl th
           | Json None \<Rightarrow>
               Inl (ErrorObject
                 (''Detection failed at '' @ env_numberToString env t @ ''s: '' @ showNat st))
           | Json (Some msg) \<Rightarrow> Inl (ErrorObject msg))
      | RespOk body \<Rightarrow>
          (case body of
             JsonThrows th \<Rightarrow> Inl th
           | Json v \<Rightarrow> Inr v))"

text \<open>The read of the per-frame cache (lines 114-121).\<close>

definition readFrameCache :: "Env \<Rightarrow> string \<Rightarrow> HookState \<Rightarrow> ActorDetectionResult option" where
  "readFrameCache env frameCacheKey s =
     (case hs_storage s frameCacheKey of
        None \<Rightarrow> None
      | Some stored \<Rightarrow> if stored = [] then None else env_parseFrame env stored)"

datatype LoopOutcome =
    LoopAborted HookState
  | LoopThrew Thrown HookState "ActorDetectionResult list"
  | LoopDone HookState "ActorDetectionResult list"

text \<open>
  The loop over the keyframes (lines 95-159), at index \<open>i\<close> with the keyframes still to
  process, the state and the frame results gathered so far.
\<close>

fun frameLoop ::
    "Env \<Rightarrow> TrackParams \<Rightarrow> nat \<Rightarrow> nat \<Rightarrow> real list \<Rightarrow> HookState \<Rightarrow> ActorDetectionResult list \<Rightarrow>
     LoopOutcome" where
  "frameLoop env params nTotal i [] s frs = LoopDone s frs"
| "frameLoop env params nTotal i (t # ts) s frs =
     (if env_aborted env i
      then LoopAborted (s \<lparr> hs_isTracking := False, hs_progress := None \<rparr>)
      else
        (let s1 = s \<lparr> hs_progress := Some
                    \<lparr> currentFrame = i + 1,
                      totalFrames = nTotal,
                      status = Detecting,
                      message = ''Analyzing frame '' @ showNat (i + 1) @ ''/'' @
                                showNat nTotal @ ''...'' \<rparr> \<rparr>;
             frameCacheKey =
               DETECTION_CACHE_PREFIX @ p_eventId params @ ''-'' @ env_toFixed1 env t
         in case readFrameCache env frameCacheKey s1 of
              Some frameResult \<Rightarrow> frameLoop env params nTotal (Suc i) ts s1 (frs @ [frameResult])
            | None \<Rightarrow>
                (case requestDetection env params i t of
                   Inl th \<Rightarrow> LoopThrew th s1 frs
                 | Inr v \<Rightarrow>
                     (let s2 = setItem env frameCacheKey (env_stringifyFrame env v) s1
                      in case v of
                           None \<Rightarrow> frameLoop env params nTotal (Suc i) ts s2 frs
                         | Some frameResult \<Rightarrow>
                             frameLoop env params nTotal (Suc i) ts s2 (frs @ [frameResult])))))"

text \<open>The handler of the \<open>catch\<close> block, followed by \<open>finally\<close> (lines 191-201).\<close>

definition failTracking ::
    "Thrown \<Rightarrow> nat \<Rightarrow> ActorDetectionResult list \<Rightarrow> HookState \<Rightarrow> HookState" where
  "failTracking th nTotal frs s =
     s \<lparr> hs_error := Some (thrownMessage th),
         hs_progress := Some
           \<lparr> currentFrame = length frs,
             totalFrames = nTotal,
             status = Error,
             message = thrownMessage th \<rparr>,
         hs_isTracking := False \<rparr>"

text \<open>The message of the final progress report (line 189).\<close>

definition doneMessage :: "nat \<Rightarrow> nat \<Rightarrow> string" where
  "doneMessage n nTotal =
     ''Tracked '' @ showNat n @ '' actor'' @ (if n \<noteq> 1 then ''s'' else '''') @
     '' across '' @ showNat nTotal @ '' frames''"

text \<open>
  The run after a miss of the session cache (lines 91-201): the loop, the second check
  of the abort flag, the matching, the write of the session cache and the final report.
  A TypeError thrown by \<open>buildTracks\<close> is caught like any other thrown value.
\<close>

definition runTracking :: "Env \<Rightarrow> TrackParams \<Rightarrow> real list \<Rightarrow> HookState \<Rightarrow> HookState" where
  "runTracking env params keyframes s =
     (let nTotal = length keyframes;
          trackingCacheKey = TRACKING_CACHE_PREFIX @ p_eventId params
      in case frameLoop env params nTotal 0 keyframes s [] of
           LoopAborted s' \<Rightarrow> s' \<lparr> hs_isTracking := False \<rparr>
         | LoopThrew th s' frs \<Rightarrow> failTracking th nTotal frs s'
         | LoopDone s' frs \<Rightarrow>
             if env_aborted env nTotal
             then s' \<lparr> hs_isTracking := False, hs_progress := None \<rparr>
             else
               (let s1 = s' \<lparr> hs_progress := Some
                           \<lparr> currentFrame = nTotal,
                             totalFrames = nTotal,
                             status = Matching,
                             message = ''Matching actors across frames...'' \<rparr> \<rparr>
                in case buildTracks (env_arith env) frs (p_eventId params) of
                     None \<Rightarrow> failTracking (ErrorObject (env_typeErrorMessage env)) nTotal frs s1
                   | Some result \<Rightarrow>
                       (let s2 = s1 \<lparr> hs_trackingResult := Some result \<rparr>;
                            s3 = setItem env trackingCacheKey (env_stringifyTracking env result) s2
                        in s3 \<lparr> hs_progress := Some
                                 \<lparr> currentFrame = nTotal,
                                   totalFrames = nTotal,
                                   status = Done,
                                   message = doneMessage (length (tracks result)) nTotal \<rparr>,
                               hs_isTracking := False \<rparr>)))"

text \<open>The state at the start of \<open>track\<close> (lines 59-63).\<close>

definition startTracking :: "TrackParams \<Rightarrow> HookState \<Rightarrow> HookState" where
  "startTracking params s =
     s \<lparr> hs_isTracking := True, hs_error := None, hs_progress := None,
         hs_lastEventId := Some (p_eventId params) \<rparr>"

definition track :: "Env \<Rightarrow> TrackParams \<Rightarrow> HookState \<Rightarrow> HookState" where
  "track env params s =
     (let keyframes = computeKeyframes (p_videoDuration params) in
      case checkTrackingCache env (p_eventId params) keyframes (startTracking params s) of
        (s', True) \<Rightarrow> s'
      | (s', False) \<Rightarrow> runTracking env params keyframes s')"

section \<open>Predicates used to state the properties of the track builder\<close>

definition obsDistance :: "Arith \<Rightarrow> ActorObservation \<Rightarrow> ActorObservation \<Rightarrow> JsNumber" where
  "obsDistance ar o1 o2 =
     haversineDistance ar (lat (o_worldPosition o1)) (lon (o_worldPosition o1))
                       (lat (o_worldPosition o2)) (lon (o_worldPosition o2))"

definition fromFrame :: "ActorType \<Rightarrow> ActorObservation \<Rightarrow> ActorDetectionResult \<Rightarrow> bool" where
  "fromFrame ty ob f \<longleftrightarrow> (\<exists>a \<in> set (fr_actors f). ob = observationOf f a \<and> a_type a = ty)"

definition gatedSteps :: "Arith \<Rightarrow> ActorObservation list \<Rightarrow> bool" where
  "gatedSteps ar obs =
     successively (\<lambda>o1 o2. \<not> jsGreater (obsDistance ar o1 o2) MAX_MATCH_DISTANCE_M) obs"

definition trackRun :: "Arith \<Rightarrow> ActorDetectionResult list \<Rightarrow> bool \<Rightarrow> OpenTrack \<Rightarrow> bool" where
  "trackRun ar fs isOpen t \<longleftrightarrow>
     (\<exists>pre mid post. fs = pre @ mid @ post \<and> (isOpen \<longrightarrow> post = []) \<and>
        list_all2 (fromFrame (ot_type t)) (ot_observations t) mid) \<and>
     ot_observations t \<noteq> [] \<and>
     ot_lastObservation t = last (ot_observations t) \<and>
     gatedSteps ar (ot_observations t)"

definition loopInv :: "Arith \<Rightarrow> ActorDetectionResult list \<Rightarrow> LoopState \<Rightarrow> bool" where
  "loopInv ar fs st \<longleftrightarrow>
     (case st of (openTracks, closedTracks, nextId) \<Rightarrow>
        (\<forall>t \<in> set openTracks. trackRun ar fs True t) \<and>
        (\<forall>t \<in> set closedTracks. trackRun ar fs False t))"

definition allObs :: "OpenTrack list \<Rightarrow> ActorObservation multiset" where
  "allObs ts = (\<Sum>t\<leftarrow>ts. mset (ot_observations t))"





section \<open>Example inputs\<close>

definition exampleActor :: "ActorType \<Rightarrow> string \<Rightarrow> real \<Rightarrow> real \<Rightarrow> DetectedActor" where
  "exampleActor ty lbl la lo =
     \<lparr> a_type = ty, a_label = lbl, a_confidence = High,
       a_bbox = \<lparr> x_min = 600, y_min = 300, x_max = 680, y_max = 360 \<rparr>,
       a_estimatedDistanceMeters = 10, a_moving = None, a_description = [],
       a_worldPosition = \<lparr> lat = la, lon = lo \<rparr>, a_bearingFromCamera = 0 \<rparr>"

definition exampleFrame :: "real \<Rightarrow> DetectedActor list \<Rightarrow> ActorDetectionResult" where
  "exampleFrame ts as =
     \<lparr> fr_actors = as, fr_timestamp = ts, fr_cameraPosition = \<lparr> lat = 0, lon = 0 \<rparr>,
       fr_cameraBearing = 0, fr_fovDegrees = 120, fr_detectedAt = [] \<rparr>"

text \<open>A car seen at 0.5 s, nothing at 1.5 s, a car at the same place at 2.5 s.\<close>

definition gapFrames :: "ActorDetectionResult list" where
  "gapFrames =
     [exampleFrame (1/2) [exampleActor Car ''car'' 0 0],
      exampleFrame (3/2) [],
      exampleFrame (5/2) [exampleActor Car ''car'' 0 0]]"

text \<open>
  A car seen in three frames at the same place, and a pedestrian seen at that place in
  the second frame only.
\<close>

definition crossingFrames :: "ActorDetectionResult list" where
  "crossingFrames =
     [exampleFrame (1/2) [exampleActor Car ''car'' 0 0],
      exampleFrame (3/2) [exampleActor Car ''car'' 0 0, exampleActor Pedestrian ''person'' 0 0],
      exampleFrame (5/2) [exampleActor Car ''car'' 0 0]]"

text \<open>Two frames that carry the same timestamp, each with a car at the same place.\<close>

definition repeatedFrames :: "ActorDetectionResult list" where
  "repeatedFrames =
     [exampleFrame 1 [exampleActor Car ''car'' 0 0],
      exampleFrame 1 [exampleActor Car ''car'' 0 0]]"

text \<open>A car, then a pedestrian at the same place in the next frame.\<close>

definition typeChangeFrames :: "ActorDetectionResult list" where
  "typeChangeFrames =
     [exampleFrame (1/2) [exampleActor Car ''car'' 0 0],
      exampleFrame (3/2) [exampleActor Pedestrian ''car'' 0 0]]"

text \<open>
  A car, then a car with the same label half way around the equator in the next frame.
\<close>

definition farFrames :: "ActorDetectionResult list" where
  "farFrames =
     [exampleFrame (1/2) [exampleActor Car ''car'' 0 0],
      exampleFrame (3/2) [exampleActor Car ''car'' 0 180]]"

text \<open>
  Two cars with the same label at antipodal positions, in consecutive frames, and an
  arithmetic whose addition errs upward by \<open>1 / 2 ^ 52\<close>, which is the error of the
  double arithmetic in the computation of \<open>a\<close> at these positions: the doubles give
  \<open>a = 1.0000000000000002\<close>.
\<close>

definition antipodalFrames :: "ActorDetectionResult list" where
  "antipodalFrames =
     [exampleFrame (1/2) [exampleActor Car ''car'' (59409 / 1000) (- (315221 / 10000))],
      exampleFrame (3/2) [exampleActor Car ''car'' (- (59409 / 1000)) (1484779 / 10000)]]"

definition roundUpArith :: Arith where
  "roundUpArith = exactArith \<lparr> fl_add := (\<lambda>x y. x + y + 1 / 2 ^ 52) \<rparr>"

text \<open>The fields of a track that the examples compare.\<close>

definition trackSummary :: "ActorTrack \<Rightarrow> string \<times> ActorType \<times> string \<times> real list \<times> real" where
  "trackSummary t = (t_trackId t, t_type t, t_color t, map o_timestamp (t_observations t), t_firstSeen t)"

text \<open>A raw detection with a given distance estimate.\<close>

definition exampleRaw :: "real \<Rightarrow> RawActor" where
  "exampleRaw d =
     \<lparr> raw_type = Car, raw_label = ''car'', raw_confidence = High,
       raw_bbox = \<lparr> x_min = 600, y_min = 300, x_max = 680, y_max = 360 \<rparr>,
       raw_estimatedDistanceMeters = d, raw_moving = None, raw_description = [] \<rparr>"








section \<open>The track builder: auxiliary lemmas\<close>

lemma candidatesOfTrack_mem:
  "(ti', oi, c) \<in> set (candidatesOfTrack ar ots obs ti) \<Longrightarrow>
     ti' = ti \<and> oi < length obs \<and> candidateCost ar (ots ! ti) (obs ! oi) = Some c"
  by (auto simp: candidatesOfTrack_def split: option.splits)

lemma buildCandidates_mem:
  "(ti, oi, c) \<in> set (buildCandidates ar ots obs) \<Longrightarrow>
     ti < length ots \<and> oi < length obs \<and> candidateCost ar (ots ! ti) (obs ! oi) = Some c"
  by (auto simp: buildCandidates_def dest: candidatesOfTrack_mem)

lemma mset_insertCandidate: "mset (insertCandidate c cs) = add_mset c (mset cs)"
  by (induction cs) simp_all

lemma mset_sortCandidates: "mset (sortCandidates cs) = mset cs"
  unfolding sortCandidates_def by (induction cs) (simp_all add: mset_insertCandidate)

lemma set_sortCandidates: "set (sortCandidates cs) = set cs"
  using mset_sortCandidates[of cs] by (rule mset_eq_setD)

lemma candidateCost_gate:
  "candidateCost ar t ao = Some c \<Longrightarrow>
     a_type (fst ao) = ot_type t \<and>
     \<not> jsGreater (obsDistance ar (ot_lastObservation t) (snd ao)) MAX_MATCH_DISTANCE_M"
  by (auto simp: candidateCost_def Let_def obsDistance_def split: if_splits)

lemma greedyAssign_tracks:
  assumes "greedyAssign obs cs (m, u, ts) = (m', u', ts')"
      and "\<forall>(ti, oi, c) \<in> set cs. ti < length ts"
  shows "length ts' = length ts \<and> m \<subseteq> m' \<and>
         (\<forall>ti. ti < length ts \<longrightarrow> ti \<in> m' \<longrightarrow> ti \<notin> m \<longrightarrow>
            (\<exists>oi c. (ti, oi, c) \<in> set cs \<and>
                    ts' ! ti = appendObservation (ts ! ti) (snd (obs ! oi)))) \<and>
         (\<forall>ti. ti < length ts \<longrightarrow> (ti \<notin> m' \<or> ti \<in> m) \<longrightarrow> ts' ! ti = ts ! ti)"
  using assms
proof (induction cs arbitrary: m u ts)
  case Nil
  then show ?case by simp
next
  case (Cons cand cs)
  obtain ti0 oi0 c0 where cand: "cand = (ti0, oi0, c0)" by (cases cand)
  from Cons.prems(2) have ti0: "ti0 < length ts" and rest: "\<forall>(ti, oi, c) \<in> set cs. ti < length ts"
    by (auto simp: cand)
  show ?case
  proof (cases "ti0 \<in> m \<or> oi0 \<in> u")
    case True
    with Cons.prems(1) have "greedyAssign obs cs (m, u, ts) = (m', u', ts')"
      by (simp add: cand)
    from Cons.IH[OF this rest] show ?thesis
      by (simp add: cand) blast
  next
    case False
    let ?ts2 = "ts[ti0 := appendObservation (ts ! ti0) (snd (obs ! oi0))]"
    from False Cons.prems(1)
    have run: "greedyAssign obs cs (insert ti0 m, insert oi0 u, ?ts2) = (m', u', ts')"
      by (simp add: cand)
    have rest2: "\<forall>(ti, oi, c) \<in> set cs. ti < length ?ts2"
      using rest by simp
    note ih = Cons.IH[OF run rest2]
    have len: "length ts' = length ts" using ih by simp
    have sub: "m \<subseteq> m'" and in0: "ti0 \<in> m'" using ih by auto
    have ih1: "\<And>ti. ti < length ts \<Longrightarrow> ti \<in> m' \<Longrightarrow> ti \<noteq> ti0 \<Longrightarrow> ti \<notin> m \<Longrightarrow>
                 \<exists>oi c. (ti, oi, c) \<in> set cs \<and>
                   ts' ! ti = appendObservation (ts ! ti) (snd (obs ! oi))"
    proof -
      fix ti assume a: "ti < length ts" "ti \<in> m'" "ti \<noteq> ti0" "ti \<notin> m"
      then have "ti < length ?ts2" "ti \<notin> insert ti0 m" by simp_all
      with ih a(2) obtain oi c where "(ti, oi, c) \<in> set cs"
        "ts' ! ti = appendObservation (?ts2 ! ti) (snd (obs ! oi))" by blast
      with a(3) show "\<exists>oi c. (ti, oi, c) \<in> set cs \<and>
                   ts' ! ti = appendObservation (ts ! ti) (snd (obs ! oi))"
        by auto
    qed
    have ih2: "\<And>ti. ti < length ts \<Longrightarrow> ti \<notin> m' \<or> ti \<in> insert ti0 m \<Longrightarrow> ts' ! ti = ?ts2 ! ti"
      using ih by simp
    have at0: "ts' ! ti0 = appendObservation (ts ! ti0) (snd (obs ! oi0))"
      using ih2[of ti0] ti0 by simp
    have A: "\<forall>ti. ti < length ts \<longrightarrow> ti \<in> m' \<longrightarrow> ti \<notin> m \<longrightarrow>
            (\<exists>oi c. (ti, oi, c) \<in> set (cand # cs) \<and>
                    ts' ! ti = appendObservation (ts ! ti) (snd (obs ! oi)))"
    proof (intro allI impI)
      fix ti assume a: "ti < length ts" "ti \<in> m'" "ti \<notin> m"
      show "\<exists>oi c. (ti, oi, c) \<in> set (cand # cs) \<and>
                    ts' ! ti = appendObservation (ts ! ti) (snd (obs ! oi))"
      proof (cases "ti = ti0")
        case True
        with at0 show ?thesis unfolding cand by (intro exI[of _ oi0] exI[of _ c0]) simp
      next
        case neq: False
        from ih1[OF a(1) a(2) neq a(3)] show ?thesis by auto
      qed
    qed
    have B: "\<forall>ti. ti < length ts \<longrightarrow> (ti \<notin> m' \<or> ti \<in> m) \<longrightarrow> ts' ! ti = ts ! ti"
    proof (intro allI impI)
      fix ti assume a: "ti < length ts" "ti \<notin> m' \<or> ti \<in> m"
      with in0 False have "ti \<noteq> ti0" by auto
      with ih2[of ti] a show "ts' ! ti = ts ! ti" by auto
    qed
    from len sub A B show ?thesis by blast
  qed
qed

lemma closeUnmatched_char:
  "n \<le> length ts \<Longrightarrow>
   closeUnmatched n m ts cl =
     (map ((!) ts) (filter (\<lambda>i. i \<in> m) [0..<n]) @ drop n ts,
      cl @ map ((!) ts) (filter (\<lambda>i. i \<notin> m) (rev [0..<n])))"
proof (induction n arbitrary: ts cl)
  case 0
  then show ?case by simp
next
  case (Suc n)
  then have lt: "n < length ts" by simp
  show ?case
  proof (cases "n \<in> m")
    case True
    have "drop n ts = ts ! n # drop (Suc n) ts"
      using lt by (simp add: Cons_nth_drop_Suc)
    with True Suc.IH[of ts cl] lt show ?thesis by simp
  next
    case False
    let ?ts2 = "take n ts @ drop (Suc n) ts"
    have le2: "n \<le> length ?ts2" using lt by simp
    have same: "\<And>P. map ((!) ?ts2) (filter P [0..<n]) = map ((!) ts) (filter P [0..<n])"
      using lt by (intro map_cong) (auto simp: nth_append)
    have same_rev: "\<And>P. map ((!) ?ts2) (filter P (rev [0..<n])) = map ((!) ts) (filter P (rev [0..<n]))"
      using lt by (intro map_cong) (auto simp: nth_append)
    have dr: "drop n ?ts2 = drop (Suc n) ts" using lt by simp
    have "closeUnmatched n m ?ts2 (cl @ [ts ! n]) =
            (map ((!) ?ts2) (filter (\<lambda>i. i \<in> m) [0..<n]) @ drop n ?ts2,
             (cl @ [ts ! n]) @ map ((!) ?ts2) (filter (\<lambda>i. i \<notin> m) (rev [0..<n])))"
      by (rule Suc.IH[OF le2])
    then have "closeUnmatched n m ?ts2 (cl @ [ts ! n]) =
            (map ((!) ts) (filter (\<lambda>i. i \<in> m) [0..<n]) @ drop (Suc n) ts,
             (cl @ [ts ! n]) @ map ((!) ts) (filter (\<lambda>i. i \<notin> m) (rev [0..<n])))"
      unfolding same same_rev dr .
    with False show ?thesis by simp
  qed
qed

lemma startTracks_char:
  "startTracks obs u ois (ts, nid) = (ts', nid') \<Longrightarrow>
   \<exists>news. ts' = ts @ news \<and>
     (\<forall>t \<in> set news. \<exists>k oi. oi \<in> set ois \<and> oi \<notin> u \<and> t = newTrack k (obs ! oi)) \<and>
     map ot_observations news = map (\<lambda>oi. [snd (obs ! oi)]) (filter (\<lambda>oi. oi \<notin> u) ois)"
proof (induction ois arbitrary: ts nid)
  case Nil
  then show ?case by simp
next
  case (Cons oi ois)
  show ?case
  proof (cases "oi \<in> u")
    case True
    with Cons.prems have "startTracks obs u ois (ts, nid) = (ts', nid')" by simp
    from Cons.IH[OF this] True show ?thesis by fastforce
  next
    case False
    with Cons.prems
    have "startTracks obs u ois (ts @ [newTrack nid (obs ! oi)], Suc nid) = (ts', nid')" by simp
    from Cons.IH[OF this] obtain news where
      n1: "ts' = (ts @ [newTrack nid (obs ! oi)]) @ news" and
      n2: "\<forall>t \<in> set news. \<exists>k oi'. oi' \<in> set ois \<and> oi' \<notin> u \<and> t = newTrack k (obs ! oi')" and
      n3: "map ot_observations news = map (\<lambda>oi. [snd (obs ! oi)]) (filter (\<lambda>oi. oi \<notin> u) ois)"
      by blast
    show ?thesis
    proof (intro exI[of _ "newTrack nid (obs ! oi) # news"] conjI)
      show "ts' = ts @ newTrack nid (obs ! oi) # news" using n1 by simp
      show "\<forall>t \<in> set (newTrack nid (obs ! oi) # news).
              \<exists>k oi'. oi' \<in> set (oi # ois) \<and> oi' \<notin> u \<and> t = newTrack k (obs ! oi')"
        using n2 False by simp blast
      show "map ot_observations (newTrack nid (obs ! oi) # news) =
            map (\<lambda>oi. [snd (obs ! oi)]) (filter (\<lambda>oi. oi \<notin> u) (oi # ois))"
        using n3 False by (simp add: newTrack_def)
    qed
  qed
qed

lemma trackRun_extend:
  assumes "trackRun ar fs True t" and "fromFrame (ot_type t) ob f"
      and "\<not> jsGreater (obsDistance ar (ot_lastObservation t) ob) MAX_MATCH_DISTANCE_M"
  shows "trackRun ar (fs @ [f]) True (appendObservation t ob)"
proof -
  from assms(1) obtain pre mid where
    fs: "fs = pre @ mid" and all2: "list_all2 (fromFrame (ot_type t)) (ot_observations t) mid"
    and ne: "ot_observations t \<noteq> []" and lst: "ot_lastObservation t = last (ot_observations t)"
    and gs: "gatedSteps ar (ot_observations t)"
    by (auto simp: trackRun_def)
  have "list_all2 (fromFrame (ot_type t)) (ot_observations t @ [ob]) (mid @ [f])"
    using all2 assms(2) by (simp add: list_all2_appendI)
  moreover have "fs @ [f] = pre @ (mid @ [f]) @ []" using fs by simp
  moreover have g: "gatedSteps ar (ot_observations t @ [ob])"
    using gs ne lst assms(3) by (simp add: gatedSteps_def successively_append_iff)
  ultimately have "\<exists>pre' mid' post'. fs @ [f] = pre' @ mid' @ post' \<and> (True \<longrightarrow> post' = []) \<and>
        list_all2 (fromFrame (ot_type t)) (ot_observations t @ [ob]) mid'"
    by (intro exI[of _ pre] exI[of _ "mid @ [f]"] exI[of _ "[]"]) simp
  with g show ?thesis
    unfolding trackRun_def appendObservation_def by simp
qed

lemma trackRun_new:
  assumes "a \<in> set (fr_actors f)"
  shows "trackRun ar (fs @ [f]) True (newTrack k (a, observationOf f a))"
proof -
  have "list_all2 (fromFrame (a_type a)) [observationOf f a] [f]"
    using assms by (auto simp: fromFrame_def)
  then have "\<exists>pre' mid' post'. fs @ [f] = pre' @ mid' @ post' \<and> (True \<longrightarrow> post' = []) \<and>
        list_all2 (fromFrame (a_type a)) [observationOf f a] mid'"
    by (intro exI[of _ fs] exI[of _ "[f]"] exI[of _ "[]"]) simp
  then show ?thesis
    unfolding trackRun_def newTrack_def gatedSteps_def by simp
qed

lemma trackRun_close:
  assumes "trackRun ar fs b t"
  shows "trackRun ar (fs @ [f]) False t"
proof -
  from assms obtain pre mid post where
    fs: "fs = pre @ mid @ post" and all2: "list_all2 (fromFrame (ot_type t)) (ot_observations t) mid"
    by (auto simp: trackRun_def)
  have "\<exists>pre' mid' post'. fs @ [f] = pre' @ mid' @ post' \<and> (False \<longrightarrow> post' = []) \<and>
        list_all2 (fromFrame (ot_type t)) (ot_observations t) mid'"
    using fs all2 by (intro exI[of _ pre] exI[of _ mid] exI[of _ "post @ [f]"]) simp
  with assms show ?thesis unfolding trackRun_def by simp
qed

lemma frameObservations_nth:
  "oi < length (frameObservations f) \<Longrightarrow>
   \<exists>a \<in> set (fr_actors f). frameObservations f ! oi = (a, observationOf f a)"
  by (auto simp: frameObservations_def)

lemma processFrame_inv:
  assumes "loopInv ar fs st"
  shows "loopInv ar (fs @ [f]) (processFrame ar st f)"
proof -
  obtain ots cl nid where st: "st = (ots, cl, nid)" by (cases st)
  define obs where "obs = frameObservations f"
  define cs where "cs = sortCandidates (buildCandidates ar ots obs)"
  obtain m u ts1 where g: "greedyAssign obs cs ({}, {}, ots) = (m, u, ts1)"
    by (cases "greedyAssign obs cs ({}, {}, ots)")
  let ?open2 = "map ((!) ts1) (filter (\<lambda>i. i \<in> m) [0..<length ts1])"
  let ?closed2 = "cl @ map ((!) ts1) (filter (\<lambda>i. i \<notin> m) (rev [0..<length ts1]))"
  obtain ts3 nid3 where s: "startTracks obs u [0..<length obs] (?open2, nid) = (ts3, nid3)"
    by (cases "startTracks obs u [0..<length obs] (?open2, nid)")
  have pf: "processFrame ar st f = (ts3, ?closed2, nid3)"
    using g s by (simp add: st processFrame_def obs_def cs_def Let_def closeUnmatched_char)
  from assms have inv_open: "\<And>t. t \<in> set ots \<Longrightarrow> trackRun ar fs True t"
    and inv_closed: "\<And>t. t \<in> set cl \<Longrightarrow> trackRun ar fs False t"
    by (auto simp: loopInv_def st)
  have cands: "\<forall>(ti, oi, c) \<in> set cs. ti < length ots"
    using buildCandidates_mem by (auto simp: cs_def set_sortCandidates)
  note G = greedyAssign_tracks[OF g cands]
  have len: "length ts1 = length ots" using G by simp
  have matched: "trackRun ar (fs @ [f]) True (ts1 ! ti)" if "ti < length ots" "ti \<in> m" for ti
  proof -
    from G that obtain oi c where mem: "(ti, oi, c) \<in> set cs"
      and eq: "ts1 ! ti = appendObservation (ots ! ti) (snd (obs ! oi))"
      by auto
    from mem have oi: "oi < length obs" and cost: "candidateCost ar (ots ! ti) (obs ! oi) = Some c"
      using buildCandidates_mem by (auto simp: cs_def set_sortCandidates)
    from oi obtain a where a: "a \<in> set (fr_actors f)" "obs ! oi = (a, observationOf f a)"
      using frameObservations_nth unfolding obs_def by blast
    from candidateCost_gate[OF cost] a
    have ty: "a_type a = ot_type (ots ! ti)"
      and d: "\<not> jsGreater (obsDistance ar (ot_lastObservation (ots ! ti)) (observationOf f a))
                MAX_MATCH_DISTANCE_M"
      by simp_all
    have "fromFrame (ot_type (ots ! ti)) (observationOf f a) f"
      using a(1) ty by (auto simp: fromFrame_def)
    from trackRun_extend[OF inv_open[of "ots ! ti"] this d] that(1) eq a(2)
    show ?thesis by simp
  qed
  have unmatched: "ts1 ! ti = ots ! ti" if "ti < length ots" "ti \<notin> m" for ti
    using G that by simp
  have open2: "trackRun ar (fs @ [f]) True t" if "t \<in> set ?open2" for t
    using that matched len by auto
  have closed2: "trackRun ar (fs @ [f]) False t" if "t \<in> set ?closed2" for t
  proof -
    from that consider "t \<in> set cl" | ti where "ti < length ots" "ti \<notin> m" "t = ts1 ! ti"
      using len by auto
    then show ?thesis
    proof cases
      case 1
      then show ?thesis using inv_closed trackRun_close by blast
    next
      case 2
      with unmatched have "t = ots ! ti" by simp
      with 2(1) have "trackRun ar fs True t" using inv_open by simp
      then show ?thesis by (rule trackRun_close)
    qed
  qed
  from startTracks_char[OF s] obtain news where
    ts3: "ts3 = ?open2 @ news" and
    news: "\<forall>t \<in> set news. \<exists>k oi. oi \<in> set [0..<length obs] \<and> oi \<notin> u \<and> t = newTrack k (obs ! oi)"
    by blast
  have open3: "trackRun ar (fs @ [f]) True t" if "t \<in> set ts3" for t
  proof (cases "t \<in> set ?open2")
    case True
    then show ?thesis by (rule open2)
  next
    case False
    with that ts3 have "t \<in> set news" by auto
    with news obtain k oi where oi: "oi < length obs" and t: "t = newTrack k (obs ! oi)"
      by auto
    from oi obtain a where a: "a \<in> set (fr_actors f)" "obs ! oi = (a, observationOf f a)"
      using frameObservations_nth unfolding obs_def by blast
    with t trackRun_new[OF a(1), of ar fs k] show ?thesis by simp
  qed
  show ?thesis
    unfolding pf loopInv_def using open3 closed2 by simp
qed

lemma loopInv_foldl:
  "loopInv ar fs st \<Longrightarrow> loopInv ar (fs @ gs) (foldl (processFrame ar) st gs)"
proof (induction gs arbitrary: fs st)
  case Nil
  then show ?case by simp
next
  case (Cons g gs)
  from Cons.IH[OF processFrame_inv[OF Cons.prems, of g]] show ?case by simp
qed

lemma loopInv_trackLoop: "loopInv ar fs (trackLoop ar fs)"
  using loopInv_foldl[of ar "[]" "([], [], 1)" fs] by (simp add: trackLoop_def loopInv_def)

lemma trackRun_weaken: "trackRun ar fs b t \<Longrightarrow> trackRun ar fs False t"
  unfolding trackRun_def by blast

lemma allClosed_trackRun:
  "t \<in> set (allClosed (trackLoop ar fs)) \<Longrightarrow> trackRun ar fs False t"
  using loopInv_trackLoop[of ar fs]
  by (cases "trackLoop ar fs") (auto simp: loopInv_def allClosed_def intro: trackRun_weaken)

lemma toActorTrack_Some:
  "toActorTrack i t = Some tr \<Longrightarrow>
     ot_observations t \<noteq> [] \<and>
     t_observations tr = ot_observations t \<and> t_type tr = ot_type t \<and>
     t_trackId tr = ot_trackId t \<and> t_label tr = ot_label t \<and>
     t_color tr = TRACK_COLORS ! (i mod length TRACK_COLORS) \<and>
     t_firstSeen tr = o_timestamp (hd (ot_observations t)) \<and>
     t_lastSeen tr = o_timestamp (last (ot_observations t))"
  by (auto simp: toActorTrack_def split: list.splits)

lemma toActorTrack_total:
  "ot_observations t \<noteq> [] \<Longrightarrow> \<exists>tr. toActorTrack i t = Some tr"
  by (auto simp: toActorTrack_def split: list.splits)

lemma convertTracks_total:
  "\<forall>t \<in> set ts. ot_observations t \<noteq> [] \<Longrightarrow> \<exists>trs. convertTracks i ts = Some trs"
proof (induction ts arbitrary: i)
  case Nil
  then show ?case by simp
next
  case (Cons t ts)
  then obtain tr where "toActorTrack i t = Some tr" using toActorTrack_total[of t i] by auto
  moreover from Cons obtain trs where "convertTracks (Suc i) ts = Some trs" by fastforce
  ultimately show ?case by simp
qed

lemma convertTracks_Some:
  "convertTracks i ts = Some trs \<Longrightarrow>
     length trs = length ts \<and> (\<forall>j < length ts. toActorTrack (i + j) (ts ! j) = Some (trs ! j))"
proof (induction ts arbitrary: i trs)
  case Nil
  then show ?case by simp
next
  case (Cons t ts)
  from Cons.prems obtain tr trs' where
    tr: "toActorTrack i t = Some tr" and rest: "convertTracks (Suc i) ts = Some trs'"
    and trs: "trs = tr # trs'"
    by (auto split: option.splits)
  from Cons.IH[OF rest] have len: "length trs' = length ts"
    and nth: "\<And>j. j < length ts \<Longrightarrow> toActorTrack (Suc i + j) (ts ! j) = Some (trs' ! j)"
    by simp_all
  have "\<forall>j < length (t # ts). toActorTrack (i + j) ((t # ts) ! j) = Some (trs ! j)"
  proof (intro allI impI)
    fix j assume "j < length (t # ts)"
    then show "toActorTrack (i + j) ((t # ts) ! j) = Some (trs ! j)"
      using tr nth[of "j - 1"] trs by (cases j) simp_all
  qed
  with len trs show ?case by simp
qed

lemma buildTracks_result:
  "\<exists>trs. convertTracks 0 (allClosed (trackLoop ar (sortFrames frs))) = Some trs \<and>
     buildTracks ar frs eid =
       Some \<lparr> tracks = sort_key t_firstSeen trs,
              keyframeTimestamps = map fr_timestamp (sortFrames frs),
              frameResults = sortFrames frs,
              eventId = eid \<rparr>"
proof -
  have "\<forall>t \<in> set (allClosed (trackLoop ar (sortFrames frs))). ot_observations t \<noteq> []"
    using allClosed_trackRun by (auto simp: trackRun_def)
  from convertTracks_total[OF this, of 0] obtain trs where
    "convertTracks 0 (allClosed (trackLoop ar (sortFrames frs))) = Some trs" by blast
  then show ?thesis by (simp add: buildTracks_def Let_def)
qed

lemma buildTracks_tracks:
  "\<exists>r. buildTracks ar frs eid = Some r \<and>
     (\<forall>tr \<in> set (tracks r). \<exists>t. trackRun ar (sortFrames frs) False t \<and>
         t_observations tr = ot_observations t \<and> t_type tr = ot_type t)"
proof -
  from buildTracks_result[of ar frs eid] obtain trs where
    conv: "convertTracks 0 (allClosed (trackLoop ar (sortFrames frs))) = Some trs" and
    res: "buildTracks ar frs eid =
       Some \<lparr> tracks = sort_key t_firstSeen trs,
              keyframeTimestamps = map fr_timestamp (sortFrames frs),
              frameResults = sortFrames frs,
              eventId = eid \<rparr>"
    by blast
  let ?cl = "allClosed (trackLoop ar (sortFrames frs))"
  have "\<exists>t. trackRun ar (sortFrames frs) False t \<and>
         t_observations tr = ot_observations t \<and> t_type tr = ot_type t"
    if "tr \<in> set trs" for tr
  proof -
    from that obtain j where j: "j < length trs" "tr = trs ! j" by (auto simp: in_set_conv_nth)
    with convertTracks_Some[OF conv] have lt: "j < length ?cl"
      and tj: "toActorTrack (0 + j) (?cl ! j) = Some tr" by simp_all
    from lt have "trackRun ar (sortFrames frs) False (?cl ! j)"
      by (intro allClosed_trackRun) simp
    with toActorTrack_Some[OF tj] show ?thesis by blast
  qed
  with res show ?thesis by simp
qed

lemma fromFrame_timestamps:
  "list_all2 (fromFrame ty) obs mid \<Longrightarrow> map o_timestamp obs = map fr_timestamp mid"
  by (induction rule: list_all2_induct) (auto simp: fromFrame_def observationOf_def)

lemma fromFrame_members:
  "list_all2 (fromFrame ty) obs mid \<Longrightarrow> ob \<in> set obs \<Longrightarrow> \<exists>f \<in> set mid. fromFrame ty ob f"
  by (induction rule: list_all2_induct) auto

lemma allObs_append [simp]: "allObs (xs @ ys) = allObs xs + allObs ys"
  by (simp add: allObs_def)

lemma allObs_Nil [simp]: "allObs [] = {#}"
  by (simp add: allObs_def)

lemma allObs_Cons [simp]: "allObs (t # ts) = mset (ot_observations t) + allObs ts"
  by (simp add: allObs_def)

lemma allObs_mset: "mset xs = mset ys \<Longrightarrow> allObs xs = allObs ys"
proof -
  assume "mset xs = mset ys"
  then have "mset (map (\<lambda>t. mset (ot_observations t)) xs) = mset (map (\<lambda>t. mset (ot_observations t)) ys)"
    by simp
  then have "sum_mset (mset (map (\<lambda>t. mset (ot_observations t)) xs)) =
             sum_mset (mset (map (\<lambda>t. mset (ot_observations t)) ys))"
    by (rule arg_cong)
  then show ?thesis unfolding allObs_def sum_mset_sum_list .
qed

lemma allObs_update:
  assumes "ti < length ts"
  shows "allObs (ts[ti := appendObservation (ts ! ti) ob]) = add_mset ob (allObs ts)"
proof -
  have "ts = take ti ts @ ts ! ti # drop (Suc ti) ts"
    using assms by (simp add: id_take_nth_drop[symmetric])
  then have "allObs ts = allObs (take ti ts) + mset (ot_observations (ts ! ti)) + allObs (drop (Suc ti) ts)"
    by (metis allObs_append allObs_Cons add.assoc)
  moreover have "allObs (ts[ti := appendObservation (ts ! ti) ob]) =
     allObs (take ti ts) + mset (ot_observations (appendObservation (ts ! ti) ob)) + allObs (drop (Suc ti) ts)"
    using assms by (simp add: upd_conv_take_nth_drop)
  ultimately show ?thesis by (simp add: appendObservation_def)
qed

lemma greedyAssign_mset:
  assumes "greedyAssign obs cs (m, u, ts) = (m', u', ts')"
      and "\<forall>(ti, oi, c) \<in> set cs. ti < length ts \<and> oi < length obs"
  shows "allObs ts' + image_mset (\<lambda>oi. snd (obs ! oi)) (mset_set ({0..<length obs} - u')) =
         allObs ts + image_mset (\<lambda>oi. snd (obs ! oi)) (mset_set ({0..<length obs} - u))"
  using assms
proof (induction cs arbitrary: m u ts)
  case Nil
  then show ?case by simp
next
  case (Cons cand cs)
  obtain ti0 oi0 c0 where cand: "cand = (ti0, oi0, c0)" by (cases cand)
  from Cons.prems(2) have ti0: "ti0 < length ts" and oi0: "oi0 < length obs"
    and rest: "\<forall>(ti, oi, c) \<in> set cs. ti < length ts \<and> oi < length obs"
    by (auto simp: cand)
  show ?case
  proof (cases "ti0 \<in> m \<or> oi0 \<in> u")
    case True
    with Cons.prems(1) have "greedyAssign obs cs (m, u, ts) = (m', u', ts')"
      by (simp add: cand)
    from Cons.IH[OF this rest] show ?thesis .
  next
    case False
    let ?ob = "snd (obs ! oi0)"
    let ?ts2 = "ts[ti0 := appendObservation (ts ! ti0) ?ob]"
    from False Cons.prems(1)
    have run: "greedyAssign obs cs (insert ti0 m, insert oi0 u, ?ts2) = (m', u', ts')"
      by (simp add: cand)
    have rest2: "\<forall>(ti, oi, c) \<in> set cs. ti < length ?ts2 \<and> oi < length obs"
      using rest by simp
    note ih = Cons.IH[OF run rest2]
    have split: "{0..<length obs} - u = insert oi0 ({0..<length obs} - insert oi0 u)"
      using False oi0 by auto
    have "mset_set ({0..<length obs} - u) = add_mset oi0 (mset_set ({0..<length obs} - insert oi0 u))"
      by (subst split) simp
    with ih allObs_update[OF ti0, of ?ob] show ?thesis by simp
  qed
qed

lemma closeUnmatched_mset:
  "mset (map ((!) ts) (filter (\<lambda>i. i \<in> m) [0..<length ts])) +
   mset (map ((!) ts) (filter (\<lambda>i. i \<notin> m) (rev [0..<length ts]))) = mset ts"
proof -
  let ?xs = "filter (\<lambda>i. i \<in> m) [0..<length ts] @ filter (\<lambda>i. i \<notin> m) (rev [0..<length ts])"
  have "mset ?xs = mset [0..<length ts]"
    by (simp del: mset_upt filter_mset_mset_set flip: multiset_partition)
  then have "image_mset ((!) ts) (mset ?xs) = image_mset ((!) ts) (mset [0..<length ts])"
    by (rule arg_cong)
  then have "mset (map ((!) ts) ?xs) = mset (map ((!) ts) [0..<length ts])"
    by (simp only: mset_map)
  then have "mset (map ((!) ts) ?xs) = mset ts"
    by (simp only: map_nth)
  then show ?thesis
    by (simp only: map_append mset_append)
qed

lemma processFrame_mset:
  assumes "processFrame ar (ots, cl, nid) f = (ots', cl', nid')"
  shows "allObs ots' + allObs cl' =
         allObs ots + allObs cl + mset (map (observationOf f) (fr_actors f))"
proof -
  define obs where "obs = frameObservations f"
  define cs where "cs = sortCandidates (buildCandidates ar ots obs)"
  obtain m u ts1 where g: "greedyAssign obs cs ({}, {}, ots) = (m, u, ts1)"
    by (cases "greedyAssign obs cs ({}, {}, ots)")
  let ?open2 = "map ((!) ts1) (filter (\<lambda>i. i \<in> m) [0..<length ts1])"
  let ?added = "map ((!) ts1) (filter (\<lambda>i. i \<notin> m) (rev [0..<length ts1]))"
  obtain ts3 nid3 where s: "startTracks obs u [0..<length obs] (?open2, nid) = (ts3, nid3)"
    by (cases "startTracks obs u [0..<length obs] (?open2, nid)")
  have pf: "processFrame ar (ots, cl, nid) f = (ts3, cl @ ?added, nid3)"
    using g s by (simp add: processFrame_def obs_def cs_def Let_def closeUnmatched_char)
  with assms have out: "ots' = ts3" "cl' = cl @ ?added" by simp_all
  have cands: "\<forall>(ti, oi, c) \<in> set cs. ti < length ots \<and> oi < length obs"
    using buildCandidates_mem by (auto simp: cs_def set_sortCandidates)
  from greedyAssign_mset[OF g cands]
  have G: "allObs ts1 + image_mset (\<lambda>oi. snd (obs ! oi)) (mset_set ({0..<length obs} - u)) =
           allObs ots + image_mset (\<lambda>oi. snd (obs ! oi)) (mset_set {0..<length obs})"
    by simp
  have whole: "image_mset (\<lambda>oi. snd (obs ! oi)) (mset_set {0..<length obs}) = mset (map snd obs)"
  proof -
    have "image_mset (\<lambda>oi. snd (obs ! oi)) (mset [0..<length obs]) = mset (map (\<lambda>oi. snd (obs ! oi)) [0..<length obs])"
      by (simp only: mset_map)
    also have "map (\<lambda>oi. snd (obs ! oi)) [0..<length obs] = map snd (map ((!) obs) [0..<length obs])"
      by simp
    also have "\<dots> = map snd obs" by (simp only: map_nth)
    finally show ?thesis by simp
  qed
  have C: "allObs ?open2 + allObs ?added = allObs ts1"
  proof -
    have "allObs (?open2 @ ?added) = allObs ts1"
      by (rule allObs_mset) (simp only: mset_append closeUnmatched_mset)
    then show ?thesis by simp
  qed
  from startTracks_char[OF s] obtain news where
    ts3: "ts3 = ?open2 @ news" and
    newsobs: "map ot_observations news = map (\<lambda>oi. [snd (obs ! oi)]) (filter (\<lambda>oi. oi \<notin> u) [0..<length obs])"
    by blast
  have N: "allObs news = image_mset (\<lambda>oi. snd (obs ! oi)) (mset_set ({0..<length obs} - u))"
  proof -
    have "allObs news = (\<Sum>xs\<leftarrow>map ot_observations news. mset xs)"
      by (simp add: allObs_def comp_def)
    also have "\<dots> = mset (concat (map ot_observations news))"
      by (simp only: mset_concat)
    also have "concat (map ot_observations news) = map (\<lambda>oi. snd (obs ! oi)) (filter (\<lambda>oi. oi \<notin> u) [0..<length obs])"
      unfolding newsobs by (induction "filter (\<lambda>oi. oi \<notin> u) [0..<length obs]") auto
    also have "mset \<dots> = image_mset (\<lambda>oi. snd (obs ! oi)) (mset_set ({0..<length obs} - u))"
    proof -
      have "{x \<in> {0..<length obs}. x \<notin> u} = {0..<length obs} - u" by auto
      then show ?thesis by simp
    qed
    finally show ?thesis .
  qed
  have "mset (map snd obs) = mset (map (observationOf f) (fr_actors f))"
    by (simp add: obs_def frameObservations_def comp_def)
  with whole have Y: "image_mset (\<lambda>oi. snd (obs ! oi)) (mset_set {0..<length obs}) =
      mset (map (observationOf f) (fr_actors f))"
    by simp
  have key: "allObs ?open2 + allObs ?added + allObs news =
             allObs ots + mset (map (observationOf f) (fr_actors f))"
    unfolding C N using G unfolding Y .
  have "allObs ots' + allObs cl' = (allObs ?open2 + allObs ?added + allObs news) + allObs cl"
    unfolding out ts3 by (simp add: ac_simps)
  also have "\<dots> = (allObs ots + mset (map (observationOf f) (fr_actors f))) + allObs cl"
    by (simp only: key)
  finally show ?thesis by (simp add: ac_simps)
qed

lemma foldl_processFrame_mset:
  assumes "foldl (processFrame ar) (ots, cl, nid) fs = (ots', cl', nid')"
  shows "allObs ots' + allObs cl' =
         allObs ots + allObs cl + (\<Sum>f\<leftarrow>fs. mset (map (observationOf f) (fr_actors f)))"
  using assms
proof (induction fs arbitrary: ots cl nid)
  case Nil
  then show ?case by simp
next
  case (Cons f fs)
  obtain o1 c1 n1 where step: "processFrame ar (ots, cl, nid) f = (o1, c1, n1)"
    by (cases "processFrame ar (ots, cl, nid) f")
  with Cons.prems have "foldl (processFrame ar) (o1, c1, n1) fs = (ots', cl', nid')" by simp
  from Cons.IH[OF this] processFrame_mset[OF step] show ?case
    by (simp add: ac_simps)
qed

lemma allClosed_mset:
  "allObs (allClosed (trackLoop ar fs)) = (\<Sum>f\<leftarrow>fs. mset (map (observationOf f) (fr_actors f)))"
proof -
  obtain o1 c1 n1 where r: "trackLoop ar fs = (o1, c1, n1)" by (cases "trackLoop ar fs")
  then have "foldl (processFrame ar) ([], [], 1) fs = (o1, c1, n1)" by (simp add: trackLoop_def)
  from foldl_processFrame_mset[OF this] r show ?thesis
    by (simp add: allClosed_def ac_simps)
qed

lemma sum_list_mset_cong:
  fixes f :: "'a \<Rightarrow> 'b multiset"
  assumes "mset xs = mset ys"
  shows "(\<Sum>x\<leftarrow>xs. f x) = (\<Sum>x\<leftarrow>ys. f x)"
proof -
  from assms have "mset (map f xs) = mset (map f ys)" by simp
  then have "sum_mset (mset (map f xs)) = sum_mset (mset (map f ys))" by (rule arg_cong)
  then show ?thesis unfolding sum_mset_sum_list .
qed

lemma convertTracks_observations:
  "convertTracks i ts = Some trs \<Longrightarrow> map t_observations trs = map ot_observations ts"
proof (induction ts arbitrary: i trs)
  case Nil
  then show ?case by simp
next
  case (Cons t ts)
  then show ?case
    by (auto split: option.splits dest: toActorTrack_Some)
qed

section \<open>Evaluation of the examples and consequences of the invariant\<close>

lemma haversine_same: "haversineDistance exactArith la lo la lo = Num 0"
  by (simp add: haversineDistance_def haversineA_def jsSqrt_def exactArith_def atan2_def)

lemma showNat_small:
  "showNat (Suc 0) = ''1''" "showNat (Suc (Suc 0)) = ''2''"
  "showNat 1 = ''1''" "showNat 2 = ''2''" "showNat 3 = ''3''" "showNat 4 = ''4''"
  by (simp_all add: showNat.simps digitChar_def)

lemma labelSimilarity_car: "labelSimilarity ''car'' ''car'' = 1"
  by (simp add: labelSimilarity_def splitWs_def toLowerCase_def toLowerChar_def isSpace_def)

lemmas buildTracks_eval = exampleActor_def exampleFrame_def buildTracks_def sortFrames_def
  trackLoop_def processFrame_def frameObservations_def observationOf_def buildCandidates_def
  candidatesOfTrack_def candidateCost_def sortCandidates_def costAfter_def jsGreater_def
  jsMinus_def appendObservation_def newTrack_def
  allClosed_def toActorTrack_def haversine_same labelSimilarity_car MAX_MATCH_DISTANCE_M_def
  LABEL_SIMILARITY_WEIGHT_def showNat_small TRACK_COLORS_def Let_def

lemma buildTracks_gapFrames:
  "map_option (\<lambda>r. map trackSummary (tracks r)) (buildTracks ar gapFrames eid) =
     Some [(''track-1'', Car, ''#3b82f6'', [1/2], 1/2), (''track-2'', Car, ''#ef4444'', [5/2], 5/2)]"
  by (simp add: buildTracks_eval gapFrames_def trackSummary_def)

lemma buildTracks_crossingFrames:
  "map_option (\<lambda>r. map trackSummary (tracks r)) (buildTracks exactArith crossingFrames eid) =
     Some [(''track-1'', Car, ''#ef4444'', [1/2, 3/2, 5/2], 1/2),
           (''track-2'', Pedestrian, ''#3b82f6'', [3/2], 3/2)]"
  by (simp add: buildTracks_eval crossingFrames_def trackSummary_def)

lemma buildTracks_repeatedFrames:
  "map_option (\<lambda>r. map trackSummary (tracks r)) (buildTracks exactArith repeatedFrames eid) =
     Some [(''track-1'', Car, ''#3b82f6'', [1, 1], 1)]"
  by (simp add: buildTracks_eval repeatedFrames_def trackSummary_def)

lemma haversine_far: "haversineDistance exactArith 0 0 0 180 = Num (EARTH_RADIUS * pi)"
  by (simp add: haversineDistance_def haversineA_def jsSqrt_def exactArith_def atan2_def)

lemma haversine_far_gt: "30 < EARTH_RADIUS * pi"
proof -
  have "30 < EARTH_RADIUS * 2" by (simp add: EARTH_RADIUS_def)
  also have "\<dots> \<le> EARTH_RADIUS * pi"
    using pi_ge_two by (simp add: EARTH_RADIUS_def)
  finally show ?thesis .
qed

lemma buildTracks_typeChangeFrames:
  "map_option (\<lambda>r. map trackSummary (tracks r)) (buildTracks ar typeChangeFrames eid) =
     Some [(''track-1'', Car, ''#3b82f6'', [1/2], 1/2),
           (''track-2'', Pedestrian, ''#ef4444'', [3/2], 3/2)]"
  by (simp add: buildTracks_eval typeChangeFrames_def trackSummary_def)

lemma buildTracks_farFrames:
  "map_option (\<lambda>r. map trackSummary (tracks r)) (buildTracks exactArith farFrames eid) =
     Some [(''track-1'', Car, ''#3b82f6'', [1/2], 1/2),
           (''track-2'', Car, ''#ef4444'', [3/2], 3/2)]"
  by (simp add: buildTracks_eval farFrames_def trackSummary_def haversine_far haversine_far_gt)

lemma haversineDistance_NaN:
  "fl_sub ar 1 (haversineA ar la1 lo1 la2 lo2) < 0 \<Longrightarrow>
     haversineDistance ar la1 lo1 la2 lo2 = NaN"
  by (simp add: haversineDistance_def jsSqrt_def Let_def split: JsNumber.splits)

lemma haversineA_antipodal: "haversineA exactArith la lo (- la) (lo + 180) = 1"
proof -
  define x where "x = la * pi / 180"
  have dlat: "(- la - la) * pi / 180 / 2 = - x" by (simp add: x_def)
  have dlon: "(lo + 180 - lo) * pi / 180 / 2 = pi / 2" by simp
  have la2: "- la * pi / 180 = - x" by (simp add: x_def)
  have "haversineA exactArith la lo (- la) (lo + 180) =
          (sin (- x))\<^sup>2 + cos x * cos (- x) * (sin (pi / 2))\<^sup>2"
    unfolding haversineA_def exactArith_def Let_def
    by (simp only: Arith.simps dlat dlon la2 x_def[symmetric])
  also have "\<dots> = (sin x)\<^sup>2 + (cos x)\<^sup>2"
    by (simp add: power2_eq_square)
  finally show ?thesis by simp
qed

lemma haversine_antipodal:
  "haversineDistance exactArith la lo (- la) (lo + 180) = Num (EARTH_RADIUS * pi)"
  unfolding haversineDistance_def haversineA_antipodal
  by (simp add: jsSqrt_def exactArith_def atan2_def)

lemma haversineA_roundUp:
  "haversineA roundUpArith la1 lo1 la2 lo2 = haversineA exactArith la1 lo1 la2 lo2 + 1 / 2 ^ 52"
  by (simp add: haversineA_def roundUpArith_def exactArith_def Let_def)

lemma haversine_antipodal_roundUp:
  "haversineDistance roundUpArith (59409 / 1000) (- (315221 / 10000))
     (- (59409 / 1000)) (1484779 / 10000) = NaN"
proof -
  have "haversineA exactArith (59409 / 1000) (- (315221 / 10000))
          (- (59409 / 1000)) (- (315221 / 10000) + 180) = 1"
    by (rule haversineA_antipodal)
  then have "haversineA exactArith (59409 / 1000) (- (315221 / 10000))
          (- (59409 / 1000)) (1484779 / 10000) = 1"
    by simp
  then have "fl_sub roundUpArith 1 (haversineA roundUpArith (59409 / 1000) (- (315221 / 10000))
          (- (59409 / 1000)) (1484779 / 10000)) < 0"
    by (simp add: haversineA_roundUp) (simp add: roundUpArith_def exactArith_def)
  then show ?thesis by (rule haversineDistance_NaN)
qed

lemma buildTracks_antipodalFrames:
  assumes "haversineDistance ar (59409 / 1000) (- (315221 / 10000))
             (- (59409 / 1000)) (1484779 / 10000) = NaN"
  shows "map_option (\<lambda>r. map (\<lambda>tr. map (\<lambda>ob. (o_timestamp ob, o_worldPosition ob))
             (t_observations tr)) (tracks r)) (buildTracks ar antipodalFrames eid) =
     Some [[(1/2, \<lparr> lat = 59409 / 1000, lon = - (315221 / 10000) \<rparr>),
            (3/2, \<lparr> lat = - (59409 / 1000), lon = 1484779 / 10000 \<rparr>)]]"
  using assms by (simp add: buildTracks_eval antipodalFrames_def)

text \<open>In the arithmetic of the reals the two antipodal detections are kept apart.\<close>

lemma haversine_antipodal_example:
  "haversineDistance exactArith (59409 / 1000) (- (315221 / 10000))
     (- (59409 / 1000)) (1484779 / 10000) = Num (EARTH_RADIUS * pi)"
proof -
  have "haversineDistance exactArith (59409 / 1000) (- (315221 / 10000))
          (- (59409 / 1000)) (- (315221 / 10000) + 180) = Num (EARTH_RADIUS * pi)"
    by (rule haversine_antipodal)
  then show ?thesis by simp
qed

lemma buildTracks_antipodalFrames_exact:
  "map_option (\<lambda>r. map trackSummary (tracks r)) (buildTracks exactArith antipodalFrames eid) =
     Some [(''track-1'', Car, ''#3b82f6'', [1/2], 1/2),
           (''track-2'', Car, ''#ef4444'', [3/2], 3/2)]"
  by (simp add: buildTracks_eval antipodalFrames_def trackSummary_def
      haversine_antipodal_example haversine_far_gt)

text \<open>
  What the gate of the frame loop guarantees for every arithmetic: in every returned
  track, the computed distance between an observation and the next one did not test
  greater than 30 metres. A computed distance that is NaN does not test greater.
\<close>

lemma buildTracks_distance_test:
  "\<exists>r. buildTracks ar frs eid = Some r \<and>
     (\<forall>tr \<in> set (tracks r). \<forall>i. Suc i < length (t_observations tr) \<longrightarrow>
        \<not> jsGreater (obsDistance ar (t_observations tr ! i) (t_observations tr ! Suc i))
             MAX_MATCH_DISTANCE_M)"
proof -
  from buildTracks_tracks[of ar frs eid] obtain r where
    r: "buildTracks ar frs eid = Some r" and
    run: "\<And>tr. tr \<in> set (tracks r) \<Longrightarrow> \<exists>t. trackRun ar (sortFrames frs) False t \<and>
         t_observations tr = ot_observations t \<and> t_type tr = ot_type t"
    by blast
  have "\<not> jsGreater (obsDistance ar (t_observations tr ! i) (t_observations tr ! Suc i))
             MAX_MATCH_DISTANCE_M"
    if "tr \<in> set (tracks r)" "Suc i < length (t_observations tr)" for tr i
  proof -
    from run[OF that(1)] obtain t :: OpenTrack where "gatedSteps ar (ot_observations t)"
      "t_observations tr = ot_observations t" by (auto simp: trackRun_def)
    with that(2) show ?thesis
      by (simp add: gatedSteps_def successively_conv_nth)
  qed
  with r show ?thesis by blast
qed

lemma map_eq_two: "map f xs = [a, b] \<Longrightarrow> \<exists>x y. xs = [x, y] \<and> f x = a \<and> f y = b"
  by auto

lemma map_eq_one: "map f xs = [a] \<Longrightarrow> \<exists>x. xs = [x] \<and> f x = a"
  by auto

lemma set_sortFrames: "set (sortFrames frs) = set frs"
  by (simp add: sortFrames_def)

lemma trackRun_provenance:
  assumes "trackRun ar fs b t" and "ob \<in> set (ot_observations t)"
  shows "\<exists>f \<in> set fs. \<exists>a \<in> set (fr_actors f). ob = observationOf f a \<and> a_type a = ot_type t"
proof -
  from assms(1) obtain pre mid post where
    fs: "fs = pre @ mid @ post" and all2: "list_all2 (fromFrame (ot_type t)) (ot_observations t) mid"
    by (auto simp: trackRun_def)
  from fromFrame_members[OF all2 assms(2)] obtain f where "f \<in> set mid" "fromFrame (ot_type t) ob f"
    by blast
  with fs show ?thesis by (auto simp: fromFrame_def)
qed

lemma trackRun_frames:
  assumes "trackRun ar fs b t"
  shows "\<exists>pre mid post. fs = pre @ mid @ post \<and>
           list_all2 (\<lambda>ob f. \<exists>a \<in> set (fr_actors f). ob = observationOf f a) (ot_observations t) mid"
proof -
  from assms obtain pre mid post where
    fs: "fs = pre @ mid @ post" and all2: "list_all2 (fromFrame (ot_type t)) (ot_observations t) mid"
    by (auto simp: trackRun_def)
  from all2 have "list_all2 (\<lambda>ob f. \<exists>a \<in> set (fr_actors f). ob = observationOf f a) (ot_observations t) mid"
    by (rule list_all2_mono) (auto simp: fromFrame_def)
  with fs show ?thesis by blast
qed

lemma trackRun_sublist:
  assumes "trackRun ar fs b t"
  shows "sublist (map o_timestamp (ot_observations t)) (map fr_timestamp fs)"
proof -
  from assms obtain pre mid post where
    fs: "fs = pre @ mid @ post" and all2: "list_all2 (fromFrame (ot_type t)) (ot_observations t) mid"
    by (auto simp: trackRun_def)
  from fromFrame_timestamps[OF all2] fs show ?thesis
    by (simp add: sublist_def) blast
qed

lemma sublist_sorted_wrt:
  "sublist xs ys \<Longrightarrow> sorted_wrt P ys \<Longrightarrow> sorted_wrt P xs"
  by (auto simp: sublist_def sorted_wrt_append)

lemma sorted_timestamps_sortFrames: "sorted (map fr_timestamp (sortFrames frs))"
  by (simp add: sortFrames_def)

lemma distinct_timestamps_sortFrames:
  "distinct (map fr_timestamp frs) \<Longrightarrow> distinct (map fr_timestamp (sortFrames frs))"
proof -
  assume d: "distinct (map fr_timestamp frs)"
  have "mset (map fr_timestamp (sortFrames frs)) = mset (map fr_timestamp frs)"
    by (simp add: sortFrames_def)
  from mset_eq_imp_distinct_iff[OF this] d show ?thesis by simp
qed

lemma closing_order_crossingFrames:
  "map ot_trackId (allClosed (trackLoop exactArith (sortFrames crossingFrames))) = [''track-2'', ''track-1'']"
  by (simp add: buildTracks_eval crossingFrames_def)

lemma TRACK_COLORS_length: "length TRACK_COLORS = 10"
  by (simp add: TRACK_COLORS_def)

section \<open>The keyframe loop: auxiliary lemmas\<close>

lemma mathRound_half_step: "mathRound ((1 / 2 + real k) * 10) / 10 = 1 / 2 + real k"
proof -
  have "\<lfloor>(1 / 2 + real k) * 10 + 1 / 2\<rfloor> = 5 + 10 * int k"
    by (rule floor_unique) simp_all
  then show ?thesis by (simp add: mathRound_def)
qed

lemma keyframeLoop_unfold:
  "keyframeLoop t duration acc =
     acc @ map (\<lambda>k. mathRound ((t + real k) * 10) / 10) [0..<nat \<lceil>duration - 1 / 2 - t\<rceil>]"
proof (induction t duration acc rule: keyframeLoop.induct)
  case (1 t duration acc)
  show ?case
  proof (cases "t < duration - 1 / 2")
    case True
    then have pos: "0 < duration - 1 / 2 - t" by simp
    define c where "c = \<lceil>duration - 1 / 2 - (t + 1)\<rceil>"
    have c0: "0 \<le> c" using pos unfolding c_def by simp
    have eq: "duration - 1 / 2 - (t + 1) = (duration - 1 / 2 - t) - 1" by simp
    have c1: "\<lceil>duration - 1 / 2 - t\<rceil> = c + 1"
      unfolding c_def eq ceiling_diff_one by simp
    have "nat (c + 1) = Suc (nat c)" using c0 by simp
    then have n: "nat \<lceil>duration - 1 / 2 - t\<rceil> = Suc (nat \<lceil>duration - 1 / 2 - (t + 1)\<rceil>)"
      unfolding c1 c_def .
    have "keyframeLoop t duration acc =
          keyframeLoop (t + 1) duration (acc @ [mathRound (t * 10) / 10])"
      using True by (subst keyframeLoop.simps) (simp add: KEYFRAME_INTERVAL_def)
    also have "\<dots> = (acc @ [mathRound (t * 10) / 10]) @
        map (\<lambda>k. mathRound ((t + 1 + real k) * 10) / 10) [0..<nat \<lceil>duration - 1 / 2 - (t + 1)\<rceil>]"
      using "1.IH"[OF True] by (simp add: KEYFRAME_INTERVAL_def)
    also have "\<dots> = acc @ map (\<lambda>k. mathRound ((t + real k) * 10) / 10) [0..<nat \<lceil>duration - 1 / 2 - t\<rceil>]"
      unfolding n by (simp add: upt_conv_Cons map_Suc_upt[symmetric] algebra_simps del: upt_Suc)
    finally show ?thesis .
  next
    case False
    then have "duration - 1 / 2 - t \<le> of_int 0" by simp
    then have "\<lceil>duration - 1 / 2 - t\<rceil> \<le> 0" by (simp only: ceiling_le_iff)
    then have "nat \<lceil>duration - 1 / 2 - t\<rceil> = 0" by simp
    with False show ?thesis by (subst keyframeLoop.simps) simp
  qed
qed

lemma less_nat_ceiling_iff: "k < nat \<lceil>x :: real\<rceil> \<longleftrightarrow> real k < x"
proof -
  have "k < nat \<lceil>x\<rceil> \<longleftrightarrow> int k < \<lceil>x\<rceil>" by (simp add: zless_nat_eq_int_zless)
  also have "\<dots> \<longleftrightarrow> of_int (int k) < x" by (rule less_ceiling_iff)
  finally show ?thesis by simp
qed

lemma computeKeyframes_base:
  "keyframeLoop KEYFRAME_START duration [] =
     map (\<lambda>k. mathRound ((1 / 2 + real k) * 10) / 10) [0..<nat \<lceil>duration - 1\<rceil>]"
proof -
  have "duration - 1 / 2 - 1 / 2 = duration - 1" by simp
  with keyframeLoop_unfold[of "1 / 2" duration "[]"] show ?thesis
    by (simp add: KEYFRAME_START_def)
qed

section \<open>The orchestrator: auxiliary lemmas\<close>


lemma setItem_other_key:
  "k \<noteq> key \<Longrightarrow> hs_storage (setItem env key v s) k = hs_storage s k"
  by (simp add: setItem_def)

lemma setItem_fields:
  "hs_trackingResult (setItem env key v s) = hs_trackingResult s"
  "hs_error (setItem env key v s) = hs_error s"
  by (simp_all add: setItem_def)














section \<open>Properties of the track builder\<close>

text \<open>
  The properties of this section are stated for an arbitrary arithmetic \<open>ar\<close> of the
  distance computation, double arithmetic included. The examples are evaluated in the
  arithmetic of the reals, in which two equal positions are at distance 0, as they are
  in double arithmetic.
\<close>

text \<open>
  Claim C1 (type gate). For every list of frame results, \<open>buildTracks\<close> returns, and
  every observation of every returned track is the observation of a detection, in one
  of the input frames, whose actor type is the type of the track. A track therefore
  never holds the observations of two detections of different types, and its type is
  the type of the detection that started it.
\<close>

theorem buildTracks_type_gate:
  "\<exists>r. buildTracks ar frs eid = Some r \<and>
     (\<forall>tr \<in> set (tracks r). \<forall>ob \<in> set (t_observations tr).
        \<exists>f \<in> set frs. \<exists>a \<in> set (fr_actors f). ob = observationOf f a \<and> a_type a = t_type tr)"
proof -
  from buildTracks_tracks[of ar frs eid] obtain r where
    r: "buildTracks ar frs eid = Some r" and
    run: "\<And>tr. tr \<in> set (tracks r) \<Longrightarrow> \<exists>t. trackRun ar (sortFrames frs) False t \<and>
         t_observations tr = ot_observations t \<and> t_type tr = ot_type t"
    by blast
  have "\<exists>f \<in> set frs. \<exists>a \<in> set (fr_actors f). ob = observationOf f a \<and> a_type a = t_type tr"
    if "tr \<in> set (tracks r)" "ob \<in> set (t_observations tr)" for tr ob
  proof -
    from run[OF that(1)] obtain t where t: "trackRun ar (sortFrames frs) False t"
      "t_observations tr = ot_observations t" "t_type tr = ot_type t" by blast
    from trackRun_provenance[OF t(1), of ob] that(2) t(2,3) show ?thesis
      by (simp add: set_sortFrames)
  qed
  with r show ?thesis by blast
qed

theorem buildTracks_type_gate_witness:
  "\<exists>r t1 t2 ob f a. buildTracks exactArith typeChangeFrames ''event'' = Some r \<and>
     tracks r = [t1, t2] \<and> t_type t1 = Car \<and> t_type t2 = Pedestrian \<and>
     t_observations t2 = [ob] \<and>
     f \<in> set typeChangeFrames \<and> a \<in> set (fr_actors f) \<and>
     ob = observationOf f a \<and> a_type a = t_type t2"
proof -
  from buildTracks_type_gate[of exactArith typeChangeFrames "''event''"] obtain r where
    r: "buildTracks exactArith typeChangeFrames ''event'' = Some r" and
    gate: "\<forall>tr \<in> set (tracks r). \<forall>ob \<in> set (t_observations tr).
        \<exists>f \<in> set typeChangeFrames. \<exists>a \<in> set (fr_actors f).
          ob = observationOf f a \<and> a_type a = t_type tr"
    by blast
  from buildTracks_typeChangeFrames[of exactArith "''event''"] r
  have s: "map trackSummary (tracks r) =
     [(''track-1'', Car, ''#3b82f6'', [1/2], 1/2),
      (''track-2'', Pedestrian, ''#ef4444'', [3/2], 3/2)]"
    by simp
  from map_eq_two[OF s] obtain t1 t2 where ts: "tracks r = [t1, t2]" and
    t1: "trackSummary t1 = (''track-1'', Car, ''#3b82f6'', [1/2], 1/2)" and
    t2: "trackSummary t2 = (''track-2'', Pedestrian, ''#ef4444'', [3/2], 3/2)"
    by blast
  from t1 t2 have ty: "t_type t1 = Car" "t_type t2 = Pedestrian"
    and o2: "map o_timestamp (t_observations t2) = [3/2]"
    by (simp_all add: trackSummary_def)
  from map_eq_one[OF o2] obtain ob where ob: "t_observations t2 = [ob]" by blast
  from gate ts ob obtain f a where "f \<in> set typeChangeFrames" "a \<in> set (fr_actors f)"
    "ob = observationOf f a" "a_type a = t_type t2"
    by auto
  with r ts ob ty show ?thesis
    by (intro exI[of _ r] exI[of _ t1] exI[of _ t2] exI[of _ ob] exI[of _ f] exI[of _ a]) simp
qed

text \<open>
  Claim C2 (distance gate) does not hold of the code. The gate refuses a detection when
  the computed distance tests greater than 30, and \<open>haversineDistance\<close> returns NaN,
  which does not test greater, as soon as rounding takes the computed \<open>a\<close> above 1.
  For a car at (59.409, -31.5221) in one frame and a car at the antipodal position
  (-59.409, 148.4779) in the next one, whenever the computed distance is NaN, as it is
  in double arithmetic, both detections end in one track, although the great-circle
  distance between them is half the circumference of the Earth.
\<close>

theorem buildTracks_antipodal_same_track:
  assumes "haversineDistance ar (59409 / 1000) (- (315221 / 10000))
             (- (59409 / 1000)) (1484779 / 10000) = NaN"
  shows "\<exists>r tr o1 o2. buildTracks ar antipodalFrames ''event'' = Some r \<and>
           tracks r = [tr] \<and> t_observations tr = [o1, o2] \<and>
           o_worldPosition o1 = \<lparr> lat = 59409 / 1000, lon = - (315221 / 10000) \<rparr> \<and>
           o_worldPosition o2 = \<lparr> lat = - (59409 / 1000), lon = 1484779 / 10000 \<rparr> \<and>
           obsDistance exactArith o1 o2 = Num (EARTH_RADIUS * pi) \<and>
           MAX_MATCH_DISTANCE_M < EARTH_RADIUS * pi"
proof -
  from buildTracks_antipodalFrames[OF assms, of "''event''"] obtain r where
    r: "buildTracks ar antipodalFrames ''event'' = Some r" and
    s: "map (\<lambda>tr. map (\<lambda>ob. (o_timestamp ob, o_worldPosition ob)) (t_observations tr)) (tracks r) =
         [[(1/2, \<lparr> lat = 59409 / 1000, lon = - (315221 / 10000) \<rparr>),
           (3/2, \<lparr> lat = - (59409 / 1000), lon = 1484779 / 10000 \<rparr>)]]"
    by auto
  from map_eq_one[OF s] obtain tr where ts: "tracks r = [tr]" and
    obs: "map (\<lambda>ob. (o_timestamp ob, o_worldPosition ob)) (t_observations tr) =
         [(1/2, \<lparr> lat = 59409 / 1000, lon = - (315221 / 10000) \<rparr>),
          (3/2, \<lparr> lat = - (59409 / 1000), lon = 1484779 / 10000 \<rparr>)]"
    by (elim exE conjE)
  from map_eq_two[OF obs] obtain o1 o2 where os: "t_observations tr = [o1, o2]" and
    p1: "o_worldPosition o1 = \<lparr> lat = 59409 / 1000, lon = - (315221 / 10000) \<rparr>" and
    p2: "o_worldPosition o2 = \<lparr> lat = - (59409 / 1000), lon = 1484779 / 10000 \<rparr>"
    by auto
  have "haversineDistance exactArith (59409 / 1000) (- (315221 / 10000))
          (- (59409 / 1000)) (- (315221 / 10000) + 180) = Num (EARTH_RADIUS * pi)"
    by (rule haversine_antipodal)
  then have d: "obsDistance exactArith o1 o2 = Num (EARTH_RADIUS * pi)"
    by (simp add: obsDistance_def p1 p2)
  have "MAX_MATCH_DISTANCE_M < EARTH_RADIUS * pi"
    using haversine_far_gt by (simp add: MAX_MATCH_DISTANCE_M_def)
  with r ts os p1 p2 d show ?thesis by blast
qed

theorem buildTracks_antipodal_same_track_witness:
  "haversineDistance roundUpArith (59409 / 1000) (- (315221 / 10000))
     (- (59409 / 1000)) (1484779 / 10000) = NaN \<and>
   (\<exists>r tr o1 o2. buildTracks roundUpArith antipodalFrames ''event'' = Some r \<and>
      tracks r = [tr] \<and> t_observations tr = [o1, o2] \<and>
      o_worldPosition o1 = \<lparr> lat = 59409 / 1000, lon = - (315221 / 10000) \<rparr> \<and>
      o_worldPosition o2 = \<lparr> lat = - (59409 / 1000), lon = 1484779 / 10000 \<rparr> \<and>
      obsDistance exactArith o1 o2 = Num (EARTH_RADIUS * pi) \<and>
      MAX_MATCH_DISTANCE_M < EARTH_RADIUS * pi)"
  using buildTracks_antipodal_same_track[OF haversine_antipodal_roundUp]
        haversine_antipodal_roundUp
  by (intro conjI)

text \<open>
  Claim C3 (a missed frame closes the track). For every list of frame results, the
  observations of every returned track come, one per frame and in order, from a run of
  consecutive frames of the sorted input: a track that misses a frame is closed there
  and receives nothing later. In particular a car at 0.5 s, no detection at 1.5 s and a
  car at the same position at 2.5 s give two tracks of one observation each.
\<close>

theorem buildTracks_gap_closes_track:
  "(\<exists>r. buildTracks ar frs eid = Some r \<and>
      (\<forall>tr \<in> set (tracks r). \<exists>pre mid post. sortFrames frs = pre @ mid @ post \<and>
         list_all2 (\<lambda>ob f. \<exists>a \<in> set (fr_actors f). ob = observationOf f a)
           (t_observations tr) mid)) \<and>
   (\<exists>r. buildTracks ar gapFrames eid = Some r \<and>
      map (\<lambda>tr. (t_type tr, map o_timestamp (t_observations tr))) (tracks r) =
        [(Car, [1/2]), (Car, [5/2])])"
proof
  from buildTracks_tracks[of ar frs eid] obtain r where
    r: "buildTracks ar frs eid = Some r" and
    run: "\<And>tr. tr \<in> set (tracks r) \<Longrightarrow> \<exists>t. trackRun ar (sortFrames frs) False t \<and>
         t_observations tr = ot_observations t \<and> t_type tr = ot_type t"
    by blast
  have "\<exists>pre mid post. sortFrames frs = pre @ mid @ post \<and>
         list_all2 (\<lambda>ob f. \<exists>a \<in> set (fr_actors f). ob = observationOf f a)
           (t_observations tr) mid"
    if "tr \<in> set (tracks r)" for tr
  proof -
    from run[OF that] obtain t where "trackRun ar (sortFrames frs) False t"
      "t_observations tr = ot_observations t" by blast
    with trackRun_frames[of ar "sortFrames frs" False t] show ?thesis by simp
  qed
  with r show "\<exists>r. buildTracks ar frs eid = Some r \<and>
      (\<forall>tr \<in> set (tracks r). \<exists>pre mid post. sortFrames frs = pre @ mid @ post \<and>
         list_all2 (\<lambda>ob f. \<exists>a \<in> set (fr_actors f). ob = observationOf f a)
           (t_observations tr) mid)"
    by blast
next
  from buildTracks_gapFrames[of ar eid] obtain r where r: "buildTracks ar gapFrames eid = Some r"
    and s: "map trackSummary (tracks r) =
      [(''track-1'', Car, ''#3b82f6'', [1/2], 1/2), (''track-2'', Car, ''#ef4444'', [5/2], 5/2)]"
    by auto
  from map_eq_two[OF s] obtain t1 t2 where ts: "tracks r = [t1, t2]" and
    t1: "trackSummary t1 = (''track-1'', Car, ''#3b82f6'', [1/2], 1/2)" and
    t2: "trackSummary t2 = (''track-2'', Car, ''#ef4444'', [5/2], 5/2)"
    by blast
  from t1 t2 have "map (\<lambda>tr. (t_type tr, map o_timestamp (t_observations tr))) [t1, t2] =
        [(Car, [1/2]), (Car, [5/2])]"
    by (simp add: trackSummary_def)
  with r ts show "\<exists>r. buildTracks ar gapFrames eid = Some r \<and>
      map (\<lambda>tr. (t_type tr, map o_timestamp (t_observations tr))) (tracks r) =
        [(Car, [1/2]), (Car, [5/2])]"
    by (intro exI[of _ r]) simp
qed

theorem buildTracks_gap_closes_track_witness:
  "\<exists>r tr pre mid post. buildTracks exactArith gapFrames ''event'' = Some r \<and>
     length (tracks r) = 2 \<and> tr \<in> set (tracks r) \<and>
     sortFrames gapFrames = pre @ mid @ post \<and>
     list_all2 (\<lambda>ob f. \<exists>a \<in> set (fr_actors f). ob = observationOf f a)
       (t_observations tr) mid"
proof -
  from buildTracks_gap_closes_track[of exactArith gapFrames "''event''"] obtain r where
    r: "buildTracks exactArith gapFrames ''event'' = Some r" and
    run: "\<forall>tr \<in> set (tracks r). \<exists>pre mid post. sortFrames gapFrames = pre @ mid @ post \<and>
         list_all2 (\<lambda>ob f. \<exists>a \<in> set (fr_actors f). ob = observationOf f a)
           (t_observations tr) mid"
    by blast
  from buildTracks_gapFrames[of exactArith "''event''"] r
  have s: "map trackSummary (tracks r) =
      [(''track-1'', Car, ''#3b82f6'', [1/2], 1/2), (''track-2'', Car, ''#ef4444'', [5/2], 5/2)]"
    by simp
  from map_eq_two[OF s] obtain t1 t2 where ts: "tracks r = [t1, t2]" by blast
  with run obtain pre mid post where "sortFrames gapFrames = pre @ mid @ post"
    "list_all2 (\<lambda>ob f. \<exists>a \<in> set (fr_actors f). ob = observationOf f a) (t_observations t1) mid"
    by auto
  with r ts show ?thesis
    by (intro exI[of _ r] exI[of _ t1] exI[of _ pre] exI[of _ mid] exI[of _ post]) simp
qed

text \<open>
  Claim C4 as stated (strictly increasing timestamps for every list of frame results)
  fails: for two frames that carry the same timestamp 1, each with a car at the same
  position, the second frame's detection is matched to the track the first one opened,
  and the returned track has the observation timestamps 1, 1.
\<close>

theorem buildTracks_timestamps_counterexample:
  "map_option (\<lambda>r. map (\<lambda>tr. map o_timestamp (t_observations tr)) (tracks r))
     (buildTracks exactArith repeatedFrames ''event'') = Some [[1, 1]] \<and>
   \<not> (\<forall>frs eid. \<exists>r. buildTracks exactArith frs eid = Some r \<and>
        (\<forall>tr \<in> set (tracks r). sorted_wrt (<) (map o_timestamp (t_observations tr))))"
proof
  from buildTracks_repeatedFrames[of "''event''"] obtain r0 where
    r0: "buildTracks exactArith repeatedFrames ''event'' = Some r0" and
    s0: "map trackSummary (tracks r0) = [(''track-1'', Car, ''#3b82f6'', [1, 1], 1)]"
    by auto
  from map_eq_one[OF s0] obtain t1 where ts: "tracks r0 = [t1]"
    and t1: "trackSummary t1 = (''track-1'', Car, ''#3b82f6'', [1, 1], 1)"
    by blast
  from t1 have o1: "map o_timestamp (t_observations t1) = [1, 1]"
    by (simp add: trackSummary_def)
  with r0 ts show "map_option (\<lambda>r. map (\<lambda>tr. map o_timestamp (t_observations tr)) (tracks r))
     (buildTracks exactArith repeatedFrames ''event'') = Some [[1, 1]]"
    by simp
  show "\<not> (\<forall>frs eid. \<exists>r. buildTracks exactArith frs eid = Some r \<and>
        (\<forall>tr \<in> set (tracks r). sorted_wrt (<) (map o_timestamp (t_observations tr))))"
  proof
    assume "\<forall>frs eid. \<exists>r. buildTracks exactArith frs eid = Some r \<and>
        (\<forall>tr \<in> set (tracks r). sorted_wrt (<) (map o_timestamp (t_observations tr)))"
    then obtain r where r: "buildTracks exactArith repeatedFrames ''event'' = Some r" and
      inc: "\<forall>tr \<in> set (tracks r). sorted_wrt (<) (map o_timestamp (t_observations tr))"
      by blast
    from r r0 have "r = r0" by simp
    with inc ts have "sorted_wrt (<) (map o_timestamp (t_observations t1))" by simp
    with o1 show False by simp
  qed
qed

text \<open>
  Claim C4, amended. For every list of frame results given in any order, the
  observations of every returned track are non-decreasing in timestamp, and strictly
  increasing when the timestamps of the frames are pairwise distinct.
\<close>

theorem buildTracks_timestamps_increasing:
  "\<exists>r. buildTracks ar frs eid = Some r \<and>
     (\<forall>tr \<in> set (tracks r).
        sorted (map o_timestamp (t_observations tr)) \<and>
        (distinct (map fr_timestamp frs) \<longrightarrow>
           sorted_wrt (<) (map o_timestamp (t_observations tr))))"
proof -
  from buildTracks_tracks[of ar frs eid] obtain r where
    r: "buildTracks ar frs eid = Some r" and
    run: "\<And>tr. tr \<in> set (tracks r) \<Longrightarrow> \<exists>t. trackRun ar (sortFrames frs) False t \<and>
         t_observations tr = ot_observations t \<and> t_type tr = ot_type t"
    by blast
  have "sorted (map o_timestamp (t_observations tr)) \<and>
        (distinct (map fr_timestamp frs) \<longrightarrow>
           sorted_wrt (<) (map o_timestamp (t_observations tr)))"
    if "tr \<in> set (tracks r)" for tr
  proof -
    from run[OF that] obtain t where t: "trackRun ar (sortFrames frs) False t"
      "t_observations tr = ot_observations t" by blast
    from trackRun_sublist[OF t(1)] t(2)
    have sub: "sublist (map o_timestamp (t_observations tr)) (map fr_timestamp (sortFrames frs))"
      by simp
    have "sorted (map o_timestamp (t_observations tr))"
      using sublist_sorted_wrt[OF sub sorted_timestamps_sortFrames] .
    moreover have "sorted_wrt (<) (map o_timestamp (t_observations tr))"
      if "distinct (map fr_timestamp frs)"
    proof -
      from distinct_timestamps_sortFrames[OF that] sorted_timestamps_sortFrames[of frs]
      have "sorted_wrt (<) (map fr_timestamp (sortFrames frs))"
        by (simp add: strict_sorted_iff)
      from sublist_sorted_wrt[OF sub this] show ?thesis .
    qed
    ultimately show ?thesis by blast
  qed
  with r show ?thesis by blast
qed

theorem buildTracks_timestamps_increasing_witness:
  "\<exists>r tr. buildTracks exactArith crossingFrames ''event'' = Some r \<and>
     tr \<in> set (tracks r) \<and> distinct (map fr_timestamp crossingFrames) \<and>
     map o_timestamp (t_observations tr) = [1/2, 3/2, 5/2] \<and>
     sorted (map o_timestamp (t_observations tr)) \<and>
     sorted_wrt (<) (map o_timestamp (t_observations tr))"
proof -
  from buildTracks_timestamps_increasing[of exactArith crossingFrames "''event''"] obtain r where
    r: "buildTracks exactArith crossingFrames ''event'' = Some r" and
    inc: "\<forall>tr \<in> set (tracks r).
        sorted (map o_timestamp (t_observations tr)) \<and>
        (distinct (map fr_timestamp crossingFrames) \<longrightarrow>
           sorted_wrt (<) (map o_timestamp (t_observations tr)))"
    by blast
  have d: "distinct (map fr_timestamp crossingFrames)"
    by (simp add: crossingFrames_def exampleFrame_def)
  from buildTracks_crossingFrames[of "''event''"] r
  have s: "map trackSummary (tracks r) =
     [(''track-1'', Car, ''#ef4444'', [1/2, 3/2, 5/2], 1/2),
      (''track-2'', Pedestrian, ''#3b82f6'', [3/2], 3/2)]"
    by simp
  from map_eq_two[OF s] obtain t1 t2 where ts: "tracks r = [t1, t2]" and
    t1: "trackSummary t1 = (''track-1'', Car, ''#ef4444'', [1/2, 3/2, 5/2], 1/2)"
    by blast
  from t1 have o1: "map o_timestamp (t_observations t1) = [1/2, 3/2, 5/2]"
    by (simp add: trackSummary_def)
  from inc ts d have "sorted (map o_timestamp (t_observations t1))"
    "sorted_wrt (<) (map o_timestamp (t_observations t1))" by simp_all
  with r ts d o1 show ?thesis
    by (intro exI[of _ r] exI[of _ t1]) simp
qed

text \<open>
  Claim C10 (detection partition). For every list of frame results, the observations
  of the returned tracks are, as a multiset, exactly the observations of the detections
  of the input frames: no detection is dropped or duplicated, and the observation
  counts of the tracks add up to the number of detections.
\<close>

theorem buildTracks_detection_partition:
  "\<exists>r. buildTracks ar frs eid = Some r \<and>
     mset (concat (map t_observations (tracks r))) =
       mset (concat (map (\<lambda>f. map (observationOf f) (fr_actors f)) frs)) \<and>
     (\<Sum>tr\<leftarrow>tracks r. length (t_observations tr)) = (\<Sum>f\<leftarrow>frs. length (fr_actors f))"
proof -
  from buildTracks_result[of ar frs eid] obtain trs where
    conv: "convertTracks 0 (allClosed (trackLoop ar (sortFrames frs))) = Some trs" and
    res: "buildTracks ar frs eid =
       Some \<lparr> tracks = sort_key t_firstSeen trs,
              keyframeTimestamps = map fr_timestamp (sortFrames frs),
              frameResults = sortFrames frs,
              eventId = eid \<rparr>"
    by blast
  let ?r = "\<lparr> tracks = sort_key t_firstSeen trs,
              keyframeTimestamps = map fr_timestamp (sortFrames frs),
              frameResults = sortFrames frs,
              eventId = eid \<rparr>"
  let ?F = "\<lambda>f. mset (map (observationOf f) (fr_actors f))"
  have "mset (concat (map t_observations (tracks ?r))) = (\<Sum>tr\<leftarrow>sort_key t_firstSeen trs. mset (t_observations tr))"
    by (simp add: mset_concat comp_def)
  also have "\<dots> = (\<Sum>tr\<leftarrow>trs. mset (t_observations tr))"
    by (rule sum_list_mset_cong) simp
  also have "\<dots> = (\<Sum>xs\<leftarrow>map t_observations trs. mset xs)"
    by (simp add: comp_def)
  also have "\<dots> = (\<Sum>xs\<leftarrow>map ot_observations (allClosed (trackLoop ar (sortFrames frs))). mset xs)"
    by (simp only: convertTracks_observations[OF conv])
  also have "\<dots> = allObs (allClosed (trackLoop ar (sortFrames frs)))"
    by (simp add: allObs_def comp_def)
  also have "\<dots> = (\<Sum>f\<leftarrow>sortFrames frs. ?F f)"
    by (rule allClosed_mset)
  also have "\<dots> = (\<Sum>f\<leftarrow>frs. ?F f)"
    by (rule sum_list_mset_cong) (simp add: sortFrames_def)
  also have "\<dots> = mset (concat (map (\<lambda>f. map (observationOf f) (fr_actors f)) frs))"
    by (simp add: mset_concat comp_def)
  finally have m: "mset (concat (map t_observations (tracks ?r))) =
       mset (concat (map (\<lambda>f. map (observationOf f) (fr_actors f)) frs))" .
  then have "size (mset (concat (map t_observations (tracks ?r)))) =
       size (mset (concat (map (\<lambda>f. map (observationOf f) (fr_actors f)) frs)))"
    by (rule arg_cong)
  then have "(\<Sum>tr\<leftarrow>tracks ?r. length (t_observations tr)) = (\<Sum>f\<leftarrow>frs. length (fr_actors f))"
    by (simp add: length_concat comp_def)
  with m res show ?thesis by blast
qed

text \<open>
  Claim C5 as stated (the colour of a track is the palette entry at its index in
  ascending order of \<open>firstSeen\<close>) fails. In \<open>crossingFrames\<close> the pedestrian's track is
  closed before the car's, so it takes the palette entry 0 although the car's track,
  first seen earlier, comes first in the returned list.
\<close>

theorem buildTracks_colors_counterexample:
  "map_option (\<lambda>r. map (\<lambda>tr. (t_trackId tr, t_firstSeen tr, t_color tr)) (tracks r))
     (buildTracks exactArith crossingFrames ''event'') =
     Some [(''track-1'', 1/2, ''#ef4444''), (''track-2'', 3/2, ''#3b82f6'')] \<and>
   TRACK_COLORS ! (0 mod 10) = ''#3b82f6'' \<and>
   \<not> (\<forall>frs eid. \<exists>r. buildTracks exactArith frs eid = Some r \<and>
        sorted (map t_firstSeen (tracks r)) \<and>
        (\<forall>i < length (tracks r). t_color (tracks r ! i) = TRACK_COLORS ! (i mod 10)))"
proof (intro conjI)
  from buildTracks_crossingFrames[of "''event''"] obtain r0 where
    r0: "buildTracks exactArith crossingFrames ''event'' = Some r0" and
    s0: "map trackSummary (tracks r0) =
     [(''track-1'', Car, ''#ef4444'', [1/2, 3/2, 5/2], 1/2),
      (''track-2'', Pedestrian, ''#3b82f6'', [3/2], 3/2)]"
    by auto
  from map_eq_two[OF s0] obtain t1 t2 where ts: "tracks r0 = [t1, t2]" and
    t1: "trackSummary t1 = (''track-1'', Car, ''#ef4444'', [1/2, 3/2, 5/2], 1/2)" and
    t2: "trackSummary t2 = (''track-2'', Pedestrian, ''#3b82f6'', [3/2], 3/2)"
    by blast
  from t1 t2 have f: "t_trackId t1 = ''track-1''" "t_firstSeen t1 = 1/2" "t_color t1 = ''#ef4444''"
    "t_trackId t2 = ''track-2''" "t_firstSeen t2 = 3/2" "t_color t2 = ''#3b82f6''"
    by (simp_all add: trackSummary_def)
  with r0 ts show "map_option (\<lambda>r. map (\<lambda>tr. (t_trackId tr, t_firstSeen tr, t_color tr)) (tracks r))
     (buildTracks exactArith crossingFrames ''event'') =
     Some [(''track-1'', 1/2, ''#ef4444''), (''track-2'', 3/2, ''#3b82f6'')]"
    by simp
  show c0: "TRACK_COLORS ! (0 mod 10) = ''#3b82f6''"
    by (simp add: TRACK_COLORS_def)
  show "\<not> (\<forall>frs eid. \<exists>r. buildTracks exactArith frs eid = Some r \<and>
        sorted (map t_firstSeen (tracks r)) \<and>
        (\<forall>i < length (tracks r). t_color (tracks r ! i) = TRACK_COLORS ! (i mod 10)))"
  proof
    assume "\<forall>frs eid. \<exists>r. buildTracks exactArith frs eid = Some r \<and>
        sorted (map t_firstSeen (tracks r)) \<and>
        (\<forall>i < length (tracks r). t_color (tracks r ! i) = TRACK_COLORS ! (i mod 10))"
    then obtain r where r: "buildTracks exactArith crossingFrames ''event'' = Some r" and
      col: "\<forall>i < length (tracks r). t_color (tracks r ! i) = TRACK_COLORS ! (i mod 10)"
      by blast
    from r r0 have "r = r0" by simp
    with col ts have "t_color t1 = TRACK_COLORS ! (0 mod 10)" by auto
    with f(3) c0 show False by simp
  qed
qed

text \<open>
  Claim C5, amended. The returned tracks are ordered by ascending \<open>firstSeen\<close>; they
  are the stable sort of the converted tracks, and the colour of a converted track is
  the palette entry at its index, modulo 10, in closing order (the closed tracks in the
  order they were closed, then the tracks still open after the last frame).
\<close>

theorem buildTracks_colors_closing_order:
  "\<exists>r cs. buildTracks ar frs eid = Some r \<and>
     sorted (map t_firstSeen (tracks r)) \<and>
     convertTracks 0 (allClosed (trackLoop ar (sortFrames frs))) = Some cs \<and>
     tracks r = sort_key t_firstSeen cs \<and>
     length cs = length (allClosed (trackLoop ar (sortFrames frs))) \<and>
     (\<forall>i < length cs.
        t_trackId (cs ! i) = ot_trackId (allClosed (trackLoop ar (sortFrames frs)) ! i) \<and>
        t_color (cs ! i) = TRACK_COLORS ! (i mod 10))"
proof -
  from buildTracks_result[of ar frs eid] obtain cs where
    conv: "convertTracks 0 (allClosed (trackLoop ar (sortFrames frs))) = Some cs" and
    res: "buildTracks ar frs eid =
       Some \<lparr> tracks = sort_key t_firstSeen cs,
              keyframeTimestamps = map fr_timestamp (sortFrames frs),
              frameResults = sortFrames frs,
              eventId = eid \<rparr>"
    by blast
  let ?cl = "allClosed (trackLoop ar (sortFrames frs))"
  from convertTracks_Some[OF conv] have len: "length cs = length ?cl"
    and nth: "\<And>j. j < length ?cl \<Longrightarrow> toActorTrack j (?cl ! j) = Some (cs ! j)"
    by simp_all
  have "\<forall>i < length cs. t_trackId (cs ! i) = ot_trackId (?cl ! i) \<and>
           t_color (cs ! i) = TRACK_COLORS ! (i mod 10)"
  proof (intro allI impI)
    fix i assume "i < length cs"
    with len nth have "toActorTrack i (?cl ! i) = Some (cs ! i)" by simp
    from toActorTrack_Some[OF this]
    show "t_trackId (cs ! i) = ot_trackId (?cl ! i) \<and> t_color (cs ! i) = TRACK_COLORS ! (i mod 10)"
      by (simp add: TRACK_COLORS_length)
  qed
  with conv res len show ?thesis
    by (intro exI[of _ "\<lparr> tracks = sort_key t_firstSeen cs,
              keyframeTimestamps = map fr_timestamp (sortFrames frs),
              frameResults = sortFrames frs,
              eventId = eid \<rparr>"] exI[of _ cs]) simp
qed

theorem buildTracks_colors_closing_order_witness:
  "\<exists>r cs. buildTracks exactArith crossingFrames ''event'' = Some r \<and>
     sorted (map t_firstSeen (tracks r)) \<and>
     tracks r = sort_key t_firstSeen cs \<and> length cs = 2 \<and>
     t_trackId (cs ! 0) = ''track-2'' \<and> t_color (cs ! 0) = TRACK_COLORS ! (0 mod 10) \<and>
     t_trackId (cs ! 1) = ''track-1'' \<and> t_color (cs ! 1) = TRACK_COLORS ! (1 mod 10)"
proof -
  from buildTracks_colors_closing_order[of exactArith crossingFrames "''event''"] obtain r cs where
    r: "buildTracks exactArith crossingFrames ''event'' = Some r" and
    so: "sorted (map t_firstSeen (tracks r))" and
    tr: "tracks r = sort_key t_firstSeen cs" and
    col: "\<forall>i < length cs.
        t_trackId (cs ! i) = ot_trackId (allClosed (trackLoop exactArith (sortFrames crossingFrames)) ! i) \<and>
        t_color (cs ! i) = TRACK_COLORS ! (i mod 10)"
    by blast
  from buildTracks_crossingFrames[of "''event''"] r
  have "length (map trackSummary (tracks r)) = 2" by simp
  with tr have len: "length cs = 2" by simp
  from map_eq_two[OF closing_order_crossingFrames] obtain c1 c2 where
    "allClosed (trackLoop exactArith (sortFrames crossingFrames)) = [c1, c2]"
    "ot_trackId c1 = ''track-2''" "ot_trackId c2 = ''track-1''"
    by blast
  with col len have "t_trackId (cs ! 0) = ''track-2''" "t_color (cs ! 0) = TRACK_COLORS ! (0 mod 10)"
    "t_trackId (cs ! 1) = ''track-1''" "t_color (cs ! 1) = TRACK_COLORS ! (1 mod 10)" by simp_all
  with r so tr len show ?thesis
    by (intro exI[of _ r] exI[of _ cs]) simp
qed

section \<open>Properties of the projection and of the keyframe schedule\<close>

text \<open>
  Claim C6 (distance clamping). Every detected actor is projected at its stored
  distance, which is the estimate clamped to [2, 200]: the world position is the
  destination point at that distance, which is 2 for an estimate below 2, 200 for one
  above 200, and the estimate itself in between.
\<close>

theorem projectRawActor_clamps_distance:
  "a_worldPosition (projectRawActor cameraLat cameraLon cameraBearing imageWidth fovDegrees intrinsics raw) =
     projectPoint cameraLat cameraLon
       (a_bearingFromCamera (projectRawActor cameraLat cameraLon cameraBearing imageWidth fovDegrees intrinsics raw))
       (a_estimatedDistanceMeters (projectRawActor cameraLat cameraLon cameraBearing imageWidth fovDegrees intrinsics raw)) \<and>
   2 \<le> a_estimatedDistanceMeters (projectRawActor cameraLat cameraLon cameraBearing imageWidth fovDegrees intrinsics raw) \<and>
   a_estimatedDistanceMeters (projectRawActor cameraLat cameraLon cameraBearing imageWidth fovDegrees intrinsics raw) \<le> 200 \<and>
   (raw_estimatedDistanceMeters raw < 2 \<longrightarrow>
      a_estimatedDistanceMeters (projectRawActor cameraLat cameraLon cameraBearing imageWidth fovDegrees intrinsics raw) = 2) \<and>
   (200 < raw_estimatedDistanceMeters raw \<longrightarrow>
      a_estimatedDistanceMeters (projectRawActor cameraLat cameraLon cameraBearing imageWidth fovDegrees intrinsics raw) = 200) \<and>
   (2 \<le> raw_estimatedDistanceMeters raw \<and> raw_estimatedDistanceMeters raw \<le> 200 \<longrightarrow>
      a_estimatedDistanceMeters (projectRawActor cameraLat cameraLon cameraBearing imageWidth fovDegrees intrinsics raw) = raw_estimatedDistanceMeters raw)"
  by (simp add: projectRawActor_def projectActorToWorld_def Let_def)

theorem projectRawActor_clamps_distance_witness:
  "a_worldPosition (projectRawActor 0 0 0 1280 120 None (exampleRaw (1/2))) =
     projectPoint 0 0 (a_bearingFromCamera (projectRawActor 0 0 0 1280 120 None (exampleRaw (1/2)))) 2 \<and>
   a_worldPosition (projectRawActor 0 0 0 1280 120 None (exampleRaw 1000)) =
     projectPoint 0 0 (a_bearingFromCamera (projectRawActor 0 0 0 1280 120 None (exampleRaw 1000))) 200 \<and>
   a_worldPosition (projectRawActor 0 0 0 1280 120 None (exampleRaw 35)) =
     projectPoint 0 0 (a_bearingFromCamera (projectRawActor 0 0 0 1280 120 None (exampleRaw 35))) 35"
proof -
  have lo: "raw_estimatedDistanceMeters (exampleRaw (1/2)) < 2"
    and hi: "200 < raw_estimatedDistanceMeters (exampleRaw 1000)"
    and mid: "2 \<le> raw_estimatedDistanceMeters (exampleRaw 35) \<and> raw_estimatedDistanceMeters (exampleRaw 35) \<le> 200"
    by (simp_all add: exampleRaw_def)
  from projectRawActor_clamps_distance[of 0 0 0 1280 120 None "exampleRaw (1/2)"] lo
       projectRawActor_clamps_distance[of 0 0 0 1280 120 None "exampleRaw 1000"] hi
       projectRawActor_clamps_distance[of 0 0 0 1280 120 None "exampleRaw 35"] mid
  show ?thesis by (simp add: exampleRaw_def)
qed

text \<open>
  Claim C7 (keyframe schedule). The computed list consists of the timestamps
  \<open>0.5 + k\<close>, each rounded to 0.1, for exactly the \<open>k\<close> with \<open>0.5 + k < duration - 0.5\<close>,
  followed by one more keyframe at \<open>max (duration - 1) 0.5\<close>, rounded to 0.1, exactly
  when that list is empty or its last timestamp is more than 1 below \<open>duration - 1\<close>.
\<close>

theorem computeKeyframes_schedule:
  "\<exists>n. (\<forall>k. k < n \<longleftrightarrow> 1 / 2 + real k < duration - 1 / 2) \<and>
     computeKeyframes duration =
       (let base = map (\<lambda>k. mathRound ((1 / 2 + real k) * 10) / 10) [0..<n]
        in if base = [] \<or> last base < (duration - 1) - 1
           then base @ [mathRound (max (duration - 1) (1 / 2) * 10) / 10]
           else base)"
proof -
  define n where "n = nat \<lceil>duration - 1\<rceil>"
  define base where "base = map (\<lambda>k. mathRound ((1 / 2 + real k) * 10) / 10) [0..<n]"
  have bound: "k < n \<longleftrightarrow> 1 / 2 + real k < duration - 1 / 2" for k
    unfolding n_def less_nat_ceiling_iff by auto
  have "keyframeLoop KEYFRAME_START duration [] = base"
    unfolding base_def n_def by (rule computeKeyframes_base)
  then have loop: "keyframeLoop (1 / 2) duration [] = base"
    by (simp add: KEYFRAME_START_def)
  have no_extra: "\<not> last base < max (duration - 1) (1 / 2) - 1 \<and> \<not> last base < (duration - 1) - 1"
    if ne: "base \<noteq> []"
  proof -
    from ne have pos: "0 < n" by (simp add: base_def)
    then have "base = map (\<lambda>k. mathRound ((1 / 2 + real k) * 10) / 10) [0..<n - 1] @
                     [mathRound ((1 / 2 + real (n - 1)) * 10) / 10]"
      unfolding base_def by (cases n) simp_all
    then have "last base = mathRound ((1 / 2 + real (n - 1)) * 10) / 10" by simp
    then have lst: "last base = 1 / 2 + real (n - 1)" by (simp only: mathRound_half_step)
    from bound[of n] have "duration - 1 \<le> real n" by simp
    with pos have "duration - 2 \<le> real (n - 1)" by (cases n) simp_all
    with lst show ?thesis by simp
  qed
  have key: "computeKeyframes duration =
       (if base = [] \<or> last base < (duration - 1) - 1
        then base @ [mathRound (max (duration - 1) (1 / 2) * 10) / 10]
        else base)"
  proof (cases "base = []")
    case True
    then show ?thesis by (simp add: computeKeyframes_def loop KEYFRAME_START_def Let_def)
  next
    case False
    with no_extra show ?thesis by (simp add: computeKeyframes_def loop KEYFRAME_START_def Let_def)
  qed
  show ?thesis
  proof (intro exI[of _ n] conjI allI)
    fix k show "k < n \<longleftrightarrow> 1 / 2 + real k < duration - 1 / 2" by (rule bound)
  next
    show "computeKeyframes duration =
       (let base = map (\<lambda>k. mathRound ((1 / 2 + real k) * 10) / 10) [0..<n]
        in if base = [] \<or> last base < (duration - 1) - 1
           then base @ [mathRound (max (duration - 1) (1 / 2) * 10) / 10]
           else base)"
      unfolding Let_def using key unfolding base_def .
  qed
qed

theorem computeKeyframes_schedule_witness:
  "computeKeyframes 3 = [1 / 2, 3 / 2] \<and> computeKeyframes 1 = [1 / 2]"
proof
  from computeKeyframes_schedule[of 3] obtain n where
    b: "\<And>k. k < n \<longleftrightarrow> 1 / 2 + real k < 3 - 1 / 2" and
    c: "computeKeyframes 3 =
       (let base = map (\<lambda>k. mathRound ((1 / 2 + real k) * 10) / 10) [0..<n]
        in if base = [] \<or> last base < (3 - 1) - 1
           then base @ [mathRound (max (3 - 1) (1 / 2) * 10) / 10]
           else base)"
    by blast
  from b[of 1] b[of 2] have "n = 2" by simp
  with c show "computeKeyframes 3 = [1 / 2, 3 / 2]"
    by (simp add: mathRound_def upt_conv_Cons numeral_2_eq_2)
next
  from computeKeyframes_schedule[of 1] obtain n where
    b: "\<And>k. k < n \<longleftrightarrow> 1 / 2 + real k < 1 - 1 / 2" and
    c: "computeKeyframes 1 =
       (let base = map (\<lambda>k. mathRound ((1 / 2 + real k) * 10) / 10) [0..<n]
        in if base = [] \<or> last base < (1 - 1) - 1
           then base @ [mathRound (max (1 - 1) (1 / 2) * 10) / 10]
           else base)"
    by blast
  from b[of 0] have "n = 0" by simp
  with c show "computeKeyframes 1 = [1 / 2]"
    by (simp add: mathRound_def)
qed

section \<open>Properties of the orchestrator\<close>





end
